theory Spec2Isabelle
  imports Main
begin

section \<open>Text, exceptions and the session state\<close>

text \<open>
  A Python \<open>str\<close> is a sequence of code points; it is modelled as a list of natural
  numbers. A \<open>bytes\<close> value is a list of numbers below 256. String literals of the
  source that contain Chinese characters are written out as their code points.
\<close>

type_synonym str = "nat list"
type_synonym bytes = "nat list"

definition ascii :: "string \<Rightarrow> str" where
  "ascii s = map of_char s"

text \<open>
  Exceptions are values: a class and the message that \<open>str(e)\<close> gives. Every class
  that is modelled is a subclass of \<open>Exception\<close>, so \<open>except Exception\<close> catches all
  of them.
\<close>

datatype exn_class = UnicodeEncodeError | UnicodeDecodeError | OSError | OtherError

datatype exn = Exn exn_class str

fun class_of :: "exn \<Rightarrow> exn_class" where
  "class_of (Exn c m) = c"

fun str_exn :: "exn \<Rightarrow> str" where
  "str_exn (Exn c m) = m"

record message =
  role :: str
  content :: str

text \<open>
  The record that \<open>_log_error\<close> builds. Its \<open>timestamp\<close> field comes from the clock
  and is left out; \<open>original\<close> and \<open>cleaned\<close> are kept.
\<close>

record error_info =
  original :: str
  cleaned :: str

text \<open>
  The state that the methods of \<open>TextSanitizer\<close> and \<open>DeepSeekChat\<close> read and write:
  \<open>self.messages\<close>, \<open>self.sanitizer.error_log\<close>, the lines of the file
  \<open>char_errors.log\<close>, whether that file can be opened for appending, and what has been
  printed. The field \<open>sent\<close> belongs to the remote service: it lists the message
  lists that the streaming requests have carried, one per call of
  \<open>client.chat.completions.create\<close> in \<open>stream_chat\<close>.
\<close>

record session =
  messages :: "message list"
  error_log :: "error_info list"
  char_errors_log :: "error_info list"
  log_writable :: bool
  stdout :: "str list"
  sent :: "message list list"

text \<open>
  \<open>ftfy.fix_text(text, normalization='NFKC')\<close> is a library function outside the
  repository. It is a parameter of the model: it returns the repaired text or raises.
\<close>

type_synonym fix_text = "str \<Rightarrow> exn + str"

section \<open>TextSanitizer\<close>

subsection \<open>The \<open>unicode_escape\<close> codec\<close>

definition hexdigit :: "nat \<Rightarrow> nat" where
  "hexdigit d = (if d < 10 then 48 + d else 87 + d)"

definition hex_fixed :: "nat \<Rightarrow> nat \<Rightarrow> str" where
  "hex_fixed w n = map (\<lambda>i. hexdigit ((n div 16 ^ i) mod 16)) (rev [0..<w])"

definition unicode_escape_cp :: "nat \<Rightarrow> str" where
  "unicode_escape_cp c =
     (if c < 0x100 then
        (if 0x20 \<le> c \<and> c < 127 then (if c \<noteq> 0x5C then [c] else [0x5C, 0x5C])
         else if c = 9 then [0x5C, 0x74]
         else if c = 10 then [0x5C, 0x6E]
         else if c = 13 then [0x5C, 0x72]
         else [0x5C, 0x78] @ hex_fixed 2 c)
      else if c < 0x10000 then [0x5C, 0x75] @ hex_fixed 4 c
      else [0x5C, 0x55] @ hex_fixed 8 c)"

definition unicode_escape :: "str \<Rightarrow> str" where
  "unicode_escape t = concat (map unicode_escape_cp t)"

subsection \<open>Stage 2: the surrogate substitution\<close>

definition is_surrogate :: "nat \<Rightarrow> bool" where
  "is_surrogate c \<longleftrightarrow> 0xD800 \<le> c \<and> c \<le> 0xDFFF"

text \<open>The slice \<open>s[-k:]\<close>: the last \<open>k\<close> elements, or all of \<open>s\<close> when it is shorter.\<close>

definition suffix_slice :: "nat \<Rightarrow> 'a list \<Rightarrow> 'a list" where
  "suffix_slice k s = drop (length s - k) s"

text \<open>
  The replacement function of \<open>re.sub\<close>: a backslash, \<open>u\<close>, and the last four
  characters of the match's \<open>unicode_escape\<close> encoding.
\<close>

definition surrogate_repl :: "nat \<Rightarrow> str" where
  "surrogate_repl c = [0x5C, 0x75] @ suffix_slice 4 (unicode_escape [c])"

definition escape_surrogates :: "str \<Rightarrow> str" where
  "escape_surrogates t =
     concat (map (\<lambda>c. if is_surrogate c then surrogate_repl c else [c]) t)"

subsection \<open>Stage 3: \<open>encode('utf-8', 'replace')\<close> and \<open>decode('utf-8')\<close>\<close>

text \<open>
  With the error handler \<open>replace\<close>, a code point that UTF-8 cannot encode (a
  surrogate) becomes a question mark. A \<open>str\<close> holds no code point above
  \<open>0x10FFFF\<close>; the model sends such a number to the question mark as well.
\<close>

definition utf8_encode_cp :: "nat \<Rightarrow> bytes" where
  "utf8_encode_cp c =
     (if c < 0x80 then [c]
      else if c < 0x800 then [0xC0 + c div 64, 0x80 + c mod 64]
      else if is_surrogate c \<or> 0x110000 \<le> c then [0x3F]
      else if c < 0x10000 then
        [0xE0 + c div 4096, 0x80 + (c div 64) mod 64, 0x80 + c mod 64]
      else
        [0xF0 + c div 262144, 0x80 + (c div 4096) mod 64,
         0x80 + (c div 64) mod 64, 0x80 + c mod 64])"

definition utf8_encode :: "str \<Rightarrow> bytes" where
  "utf8_encode t = concat (map utf8_encode_cp t)"

definition is_cont :: "nat \<Rightarrow> bool" where
  "is_cont b \<longleftrightarrow> 0x80 \<le> b \<and> b \<le> 0xBF"

definition decode_error :: exn where
  "decode_error = Exn UnicodeDecodeError (ascii ''invalid utf-8'')"

definition cons_ok :: "nat \<Rightarrow> exn + str \<Rightarrow> exn + str" where
  "cons_ok c r = (case r of Inl e \<Rightarrow> Inl e | Inr t \<Rightarrow> Inr (c # t))"

text \<open>
  The strict decoder reads one code point at a time. \<open>utf8_first\<close> decodes the
  code point at the head of the bytes and returns it with the bytes that follow; it
  accepts the well-formed sequences only (no overlong form, no encoded surrogate,
  nothing above \<open>0x10FFFF\<close>).
\<close>

definition utf8_first :: "bytes \<Rightarrow> (nat \<times> bytes) option" where
  "utf8_first bs =
     (case bs of
        [] \<Rightarrow> None
      | b0 # r0 \<Rightarrow>
          if b0 < 0x80 then Some (b0, r0)
          else if 0xC2 \<le> b0 \<and> b0 \<le> 0xDF then
            (case r0 of
               b1 # r1 \<Rightarrow>
                 if is_cont b1 then Some ((b0 - 0xC0) * 64 + (b1 - 0x80), r1) else None
             | _ \<Rightarrow> None)
          else if 0xE0 \<le> b0 \<and> b0 \<le> 0xEF then
            (case r0 of
               b1 # b2 # r2 \<Rightarrow>
                 if is_cont b1 \<and> is_cont b2
                    \<and> (b0 = 0xE0 \<longrightarrow> 0xA0 \<le> b1) \<and> (b0 = 0xED \<longrightarrow> b1 \<le> 0x9F)
                 then Some ((b0 - 0xE0) * 4096 + (b1 - 0x80) * 64 + (b2 - 0x80), r2)
                 else None
             | _ \<Rightarrow> None)
          else if 0xF0 \<le> b0 \<and> b0 \<le> 0xF4 then
            (case r0 of
               b1 # b2 # b3 # r3 \<Rightarrow>
                 if is_cont b1 \<and> is_cont b2 \<and> is_cont b3
                    \<and> (b0 = 0xF0 \<longrightarrow> 0x90 \<le> b1) \<and> (b0 = 0xF4 \<longrightarrow> b1 \<le> 0x8F)
                 then Some ((b0 - 0xF0) * 262144 + (b1 - 0x80) * 4096
                            + (b2 - 0x80) * 64 + (b3 - 0x80), r3)
                 else None
             | _ \<Rightarrow> None)
          else None)"

lemma utf8_first_shorter:
  assumes "utf8_first bs = Some (c, r)"
  shows "length r < length bs"
  using assms
  by (auto simp: utf8_first_def split: list.splits if_splits)

text \<open>\<open>decode('utf-8')\<close> raises \<open>UnicodeDecodeError\<close> at the first ill-formed sequence.\<close>

function utf8_decode :: "bytes \<Rightarrow> exn + str" where
  "utf8_decode bs =
     (if bs = [] then Inr []
      else
        (case utf8_first bs of
           None \<Rightarrow> Inl decode_error
         | Some (c, r) \<Rightarrow> cons_ok c (utf8_decode r)))"
  by pat_completeness auto
termination
  by (relation "measure length") (auto simp: utf8_first_shorter)

declare utf8_decode.simps [simp del]

subsection \<open>\<open>_log_error\<close> and \<open>sanitize\<close>\<close>

text \<open>
  \<open>_log_error\<close> appends the record to \<open>self.error_log\<close> and then opens
  \<open>char_errors.log\<close> for appending; \<open>open\<close> raises \<open>OSError\<close> when the file cannot
  be opened, after the in-memory list has already grown.
\<close>

definition open_error :: exn where
  "open_error = Exn OSError (ascii ''char_errors.log'')"

definition log_error :: "str \<Rightarrow> str \<Rightarrow> session \<Rightarrow> (exn + unit) \<times> session" where
  "log_error orig cl s =
     (let error_info = \<lparr>original = unicode_escape orig, cleaned = unicode_escape cl\<rparr>;
          s1 = s\<lparr>error_log := error_log s @ [error_info]\<rparr>
      in if log_writable s1
         then (Inr (), s1\<lparr>char_errors_log := char_errors_log s1 @ [error_info]\<rparr>)
         else (Inl open_error, s1))"

text \<open>The three stages inside the \<open>try\<close> block, before the comparison with the original.\<close>

definition pipeline :: "fix_text \<Rightarrow> str \<Rightarrow> exn + str" where
  "pipeline ftfy t =
     (case ftfy t of
        Inl e \<Rightarrow> Inl e
      | Inr t1 \<Rightarrow> utf8_decode (utf8_encode (escape_surrogates t1)))"

definition sentinel :: str where
  "sentinel = [0x5B, 0x5185, 0x5BB9, 0x5305, 0x542B, 0x65E0, 0x6CD5, 0x89E3, 0x6790,
               0x7684, 0x5B57, 0x7B26, 0x5D]"

text \<open>
  The \<open>except Exception\<close> handler of \<open>sanitize\<close>: it logs and returns the sentinel. An
  exception raised by the handler itself is not caught.
\<close>

definition sanitize_handler :: "str \<Rightarrow> exn \<Rightarrow> session \<Rightarrow> (exn + str) \<times> session" where
  "sanitize_handler orig e s =
     (case log_error orig (str_exn e) s of
        (Inl e2, s2) \<Rightarrow> (Inl e2, s2)
      | (Inr u, s2) \<Rightarrow> (Inr sentinel, s2))"

text \<open>\<open>sanitize\<close> on a \<open>str\<close> argument; the empty string is falsy and is returned at once.\<close>

definition sanitize_text :: "fix_text \<Rightarrow> str \<Rightarrow> session \<Rightarrow> (exn + str) \<times> session" where
  "sanitize_text ftfy t s =
     (if t = [] then (Inr t, s)
      else
        (case pipeline ftfy t of
           Inl e \<Rightarrow> sanitize_handler t e s
         | Inr t3 \<Rightarrow>
             (if t \<noteq> t3 then
                (case log_error t t3 s of
                   (Inl e, s1) \<Rightarrow> sanitize_handler t e s1
                 | (Inr u, s1) \<Rightarrow> (Inr t3, s1))
              else (Inr t3, s))))"

text \<open>\<open>sanitize\<close> on any argument the callers pass: \<open>None\<close> is falsy too.\<close>

definition sanitize :: "fix_text \<Rightarrow> str option \<Rightarrow> session \<Rightarrow> (exn + str option) \<times> session" where
  "sanitize ftfy arg s =
     (case arg of
        None \<Rightarrow> (Inr None, s)
      | Some t \<Rightarrow>
          (case sanitize_text ftfy t s of
             (Inl e, s1) \<Rightarrow> (Inl e, s1)
           | (Inr r, s1) \<Rightarrow> (Inr (Some r), s1)))"

text \<open>
  \<open>sanitize_message_history\<close>: the list comprehension calls \<open>sanitize\<close> on the
  content of each message in order and builds a new list.
\<close>

fun sanitize_message_history ::
  "fix_text \<Rightarrow> message list \<Rightarrow> session \<Rightarrow> (exn + message list) \<times> session" where
  "sanitize_message_history ftfy [] s = (Inr [], s)"
| "sanitize_message_history ftfy (msg # msgs) s =
     (case sanitize_text ftfy (content msg) s of
        (Inl e, s1) \<Rightarrow> (Inl e, s1)
      | (Inr c, s1) \<Rightarrow>
          (case sanitize_message_history ftfy msgs s1 of
             (Inl e, s2) \<Rightarrow> (Inl e, s2)
           | (Inr r, s2) \<Rightarrow> (Inr (\<lparr>role = role msg, content = c\<rparr> # r), s2)))"

section \<open>DeepSeekChat: the message buffer\<close>

definition system_prompt :: str where
  "system_prompt =
     [0x4F60, 0x662F, 0x4E00, 0x4E2A, 0x547D, 0x4EE4, 0x884C, 0x20, 0x41, 0x49, 0x20,
      0x52A9, 0x624B, 0xFF0C, 0x56DE, 0x7B54, 0x9700, 0x8981, 0x7B80, 0x6D01, 0x660E,
      0x4E86, 0xFF0C, 0x4F7F, 0x7528, 0x4E2D, 0x6587, 0xFF0C, 0x5E76, 0x4E14, 0x907F,
      0x514D, 0x4F7F, 0x7528, 0x20, 0x4D, 0x61, 0x72, 0x6B, 0x64, 0x6F, 0x77, 0x6E, 0x20,
      0x683C, 0x5F0F, 0x3002, 0x8BF7, 0x76F4, 0x63A5, 0x56DE, 0x7B54, 0x7528, 0x6237,
      0x7684, 0x95EE, 0x9898, 0xFF0C, 0x4E0D, 0x8981, 0x6DFB, 0x52A0, 0x989D, 0x5916,
      0x7684, 0x8BF4, 0x660E, 0x6216, 0x683C, 0x5F0F, 0x5316, 0x5185, 0x5BB9, 0x3002]"

definition initialize_session :: "fix_text \<Rightarrow> session \<Rightarrow> (exn + unit) \<times> session" where
  "initialize_session ftfy s =
     (case sanitize_message_history ftfy
             [\<lparr>role = ascii ''system'', content = system_prompt\<rparr>] s of
        (Inl e, s1) \<Rightarrow> (Inl e, s1)
      | (Inr ms, s1) \<Rightarrow> (Inr (), s1\<lparr>messages := ms\<rparr>))"

text \<open>
  \<open>add_message\<close>: sanitize, append, and when the list has more than 11 entries keep
  entry 0 and the last ten. An exception of \<open>sanitize\<close> leaves the list as it was.
\<close>

definition add_message :: "fix_text \<Rightarrow> str \<Rightarrow> str \<Rightarrow> session \<Rightarrow> (exn + unit) \<times> session" where
  "add_message ftfy r c s =
     (case sanitize_text ftfy c s of
        (Inl e, s1) \<Rightarrow> (Inl e, s1)
      | (Inr clean_content, s1) \<Rightarrow>
          (let ms = messages s1 @ [\<lparr>role = r, content = clean_content\<rparr>]
           in if length ms > 11
              then (Inr (), s1\<lparr>messages := [ms ! 0] @ suffix_slice 10 ms\<rparr>)
              else (Inr (), s1\<lparr>messages := ms\<rparr>)))"

text \<open>
  A sequence of \<open>add_message\<close> calls, each given as the pair of its role and content;
  the first exception ends the sequence, as it ends the caller's loop.
\<close>

fun add_messages :: "fix_text \<Rightarrow> (str \<times> str) list \<Rightarrow> session \<Rightarrow> (exn + unit) \<times> session" where
  "add_messages ftfy [] s = (Inr (), s)"
| "add_messages ftfy ((r, c) # calls) s =
     (case add_message ftfy r c s of
        (Inl e, s1) \<Rightarrow> (Inl e, s1)
      | (Inr u, s1) \<Rightarrow> add_messages ftfy calls s1)"

section \<open>DeepSeekChat: the streaming exchange\<close>

text \<open>
  The remote completion service is outside the repository. A call to
  \<open>client.chat.completions.create\<close> either raises or returns a stream; iterating the
  stream yields chunks, whose \<open>delta.content\<close> is a string or \<open>None\<close>, and may raise
  at any chunk. What the service answers is a parameter of the model, indexed by the
  attempt counter of \<open>stream_chat\<close> and the messages sent.
\<close>

datatype stream_event = Chunk "str option" | StreamRaises exn

datatype api_response = CreateRaises exn | Stream "stream_event list"

type_synonym chat_api = "nat \<Rightarrow> message list \<Rightarrow> api_response"

text \<open>\<open>print(x, end=e)\<close>: writing to the console always succeeds in the model.\<close>

definition print_end :: "str \<Rightarrow> str \<Rightarrow> session \<Rightarrow> session" where
  "print_end x e s = s\<lparr>stdout := stdout s @ [x @ e]\<rparr>"

text \<open>\<open>str(n)\<close> for a natural number: its decimal digits.\<close>

function str_nat :: "nat \<Rightarrow> str" where
  "str_nat n = (if n < 10 then [48 + n] else str_nat (n div 10) @ [48 + n mod 10])"
  by pat_completeness auto
termination
  by (relation "measure id") auto

declare str_nat.simps [simp del]

definition assistant_prefix :: str where
  "assistant_prefix = ascii ''assistant'' @ [0xFF1A]"

definition retry_message :: "nat \<Rightarrow> nat \<Rightarrow> str" where
  "retry_message attempt max_retries =
     [0x0A, 0x7F16, 0x7801, 0x9519, 0x8BEF, 0xFF0C, 0x6B63, 0x5728, 0x91CD, 0x8BD5, 0x28]
     @ str_nat attempt @ ascii ''/'' @ str_nat max_retries @ ascii '')...''"

definition request_error :: "exn \<Rightarrow> str" where
  "request_error e = [0x0A, 0x8BF7, 0x6C42, 0x51FA, 0x9519, 0xFF1A] @ str_exn e"

definition advisory :: str where
  "advisory = [0x0A, 0x8D85, 0x8FC7, 0x6700, 0x5927, 0x91CD, 0x8BD5, 0x6B21, 0x6570, 0xFF0C,
               0x5EFA, 0x8BAE, 0x5F00, 0x542F, 0x65B0, 0x5BF9, 0x8BDD]"

text \<open>
  The loop \<open>for chunk in stream\<close>: a chunk whose content is \<open>None\<close> or empty is
  skipped; any other content is sanitized, printed and appended to \<open>full_response\<close>.
\<close>

fun consume_stream ::
  "fix_text \<Rightarrow> stream_event list \<Rightarrow> str list \<Rightarrow> session \<Rightarrow> (exn + str list) \<times> session" where
  "consume_stream ftfy [] full_response s = (Inr full_response, s)"
| "consume_stream ftfy (StreamRaises e # rest) full_response s = (Inl e, s)"
| "consume_stream ftfy (Chunk None # rest) full_response s =
     consume_stream ftfy rest full_response s"
| "consume_stream ftfy (Chunk (Some c) # rest) full_response s =
     (if c = [] then consume_stream ftfy rest full_response s
      else
        (case sanitize_text ftfy c s of
           (Inl e, s1) \<Rightarrow> (Inl e, s1)
         | (Inr clean_content, s1) \<Rightarrow>
             consume_stream ftfy rest (full_response @ [clean_content])
               (print_end clean_content [] s1)))"

text \<open>The body of the \<open>try\<close> block of \<open>stream_chat\<close>, for one value of \<open>attempt\<close>.\<close>

definition stream_attempt ::
  "fix_text \<Rightarrow> chat_api \<Rightarrow> nat \<Rightarrow> session \<Rightarrow> (exn + unit) \<times> session" where
  "stream_attempt ftfy api attempt s =
     (case sanitize_message_history ftfy (messages s) s of
        (Inl e, s1) \<Rightarrow> (Inl e, s1)
      | (Inr safe_messages, s0) \<Rightarrow>
          (let s1 = s0\<lparr>sent := sent s0 @ [safe_messages]\<rparr>
           in case api attempt safe_messages of
             CreateRaises e \<Rightarrow> (Inl e, s1)
           | Stream evs \<Rightarrow>
               (case consume_stream ftfy evs [] (print_end assistant_prefix [] s1) of
                  (Inl e, s2) \<Rightarrow> (Inl e, s2)
                | (Inr full_response, s2) \<Rightarrow>
                    add_message ftfy (ascii ''assistant'') (concat full_response)
                      (print_end [] [0x0A] s2))))"

text \<open>
  The \<open>while\<close> loop of \<open>stream_chat\<close>. \<open>UnicodeEncodeError\<close> is caught by the first
  handler, which counts the attempt, prints, and stores the re-sanitized history;
  every other exception is caught by the second handler, which prints the sanitized
  error text and returns. An exception raised inside a handler is not caught.
\<close>

function stream_chat_loop ::
  "fix_text \<Rightarrow> chat_api \<Rightarrow> nat \<Rightarrow> nat \<Rightarrow> session \<Rightarrow> (exn + unit) \<times> session" where
  "stream_chat_loop ftfy api max_retries attempt s =
     (if attempt < max_retries then
        (case stream_attempt ftfy api attempt s of
           (Inr u, s1) \<Rightarrow> (Inr (), s1)
         | (Inl e, s1) \<Rightarrow>
             if class_of e = UnicodeEncodeError then
               (let s2 = print_end (retry_message (attempt + 1) max_retries) [0x0A] s1
                in case sanitize_message_history ftfy (messages s2) s2 of
                     (Inl e2, s3) \<Rightarrow> (Inl e2, s3)
                   | (Inr ms, s3) \<Rightarrow>
                       stream_chat_loop ftfy api max_retries (attempt + 1)
                         (s3\<lparr>messages := ms\<rparr>))
             else
               (case sanitize_text ftfy (request_error e) s1 of
                  (Inl e2, s2) \<Rightarrow> (Inl e2, s2)
                | (Inr error_msg, s2) \<Rightarrow> (Inr (), print_end error_msg [0x0A] s2)))
      else (Inr (), print_end advisory [0x0A] s))"
  by pat_completeness auto
termination
  by (relation "measure (\<lambda>(ftfy, api, max_retries, attempt, s). max_retries - attempt)") auto

declare stream_chat_loop.simps [simp del]

definition stream_chat :: "fix_text \<Rightarrow> chat_api \<Rightarrow> nat \<Rightarrow> session \<Rightarrow> (exn + unit) \<times> session" where
  "stream_chat ftfy api max_retries s = stream_chat_loop ftfy api max_retries 0 s"

section \<open>DeepSeekChat: saving the conversation\<close>

definition should_save_conversation :: "session \<Rightarrow> bool" where
  "should_save_conversation s \<longleftrightarrow> length (messages s) \<ge> 5"

text \<open>
  \<open>_sanitize_filename\<close>: the regular expression removes every character that is
  not in the range U+4E00 to U+9FA5, an ASCII letter, a digit, an underscore or a
  space; the result is stripped and cut to 30 characters.
\<close>

definition filename_char :: "nat \<Rightarrow> bool" where
  "filename_char c \<longleftrightarrow>
     (0x4E00 \<le> c \<and> c \<le> 0x9FA5) \<or> (0x61 \<le> c \<and> c \<le> 0x7A) \<or> (0x41 \<le> c \<and> c \<le> 0x5A)
     \<or> (0x30 \<le> c \<and> c \<le> 0x39) \<or> c = 0x5F \<or> c = 0x20"

text \<open>The characters that \<open>str.strip()\<close> removes: those for which \<open>isspace\<close> holds.\<close>

definition is_space :: "nat \<Rightarrow> bool" where
  "is_space c \<longleftrightarrow>
     (0x09 \<le> c \<and> c \<le> 0x0D) \<or> (0x1C \<le> c \<and> c \<le> 0x20) \<or> c = 0x85 \<or> c = 0xA0
     \<or> c = 0x1680 \<or> (0x2000 \<le> c \<and> c \<le> 0x200A) \<or> c = 0x2028 \<or> c = 0x2029
     \<or> c = 0x202F \<or> c = 0x205F \<or> c = 0x3000"

definition strip :: "str \<Rightarrow> str" where
  "strip t = rev (dropWhile is_space (rev (dropWhile is_space t)))"

definition sanitize_filename :: "str \<Rightarrow> str" where
  "sanitize_filename title = take 30 (strip (filter filename_char title))"

text \<open>
  The second, non-streaming completion call: it raises, or returns a message whose
  content is a string or \<open>None\<close>.
\<close>

type_synonym title_api = "message list \<Rightarrow> exn + str option"

definition title_instruction :: str where
  "title_instruction =
     [0x4F60, 0x662F, 0x4E00, 0x4E2A, 0x4E13, 0x4E1A, 0x7684, 0x5BF9, 0x8BDD, 0x6807, 0x9898,
      0x751F, 0x6210, 0x5668, 0xFF0C, 0x8BF7, 0x6839, 0x636E, 0x4EE5, 0x4E0B, 0x5BF9, 0x8BDD,
      0x5185, 0x5BB9, 0x751F, 0x6210, 0x4E00, 0x4E2A, 0x7B80, 0x6D01, 0x7684, 0x4E2D, 0x6587,
      0x6807, 0x9898, 0xFF0C, 0x4E0D, 0x8D85, 0x8FC7, 0x31, 0x35, 0x4E2A, 0x5B57, 0xFF0C,
      0x4E0D, 0x8981, 0x4F7F, 0x7528, 0x4EFB, 0x4F55, 0x6807, 0x70B9, 0x7B26, 0x53F7, 0x3002,
      0x76F4, 0x63A5, 0x8FD4, 0x56DE, 0x6807, 0x9898, 0xFF0C, 0x4E0D, 0x8981, 0x89E3, 0x91CA,
      0x3002]"

text \<open>\<open>sep.join(xs)\<close>.\<close>

fun join :: "str \<Rightarrow> str list \<Rightarrow> str" where
  "join sep [] = []"
| "join sep [x] = x"
| "join sep (x # y # ys) = x @ sep @ join sep (y # ys)"

definition title_failed :: "str \<Rightarrow> str" where
  "title_failed m = [0x6807, 0x9898, 0x751F, 0x6210, 0x5931, 0x8D25, 0xFF1A] @ m"

definition none_has_no_strip :: str where
  "none_has_no_strip = ascii [CHR 0x27] @ ascii ''NoneType'' @ ascii [CHR 0x27]
     @ ascii '' object has no attribute '' @ ascii [CHR 0x27] @ ascii ''strip'' @ ascii [CHR 0x27]"

text \<open>
  \<open>_generate_title\<close>: everything is inside \<open>try\<close>; the handler prints and returns
  \<open>None\<close>. Calling \<open>strip\<close> on a content that is \<open>None\<close> raises \<open>AttributeError\<close>,
  which the handler catches like any other exception.
\<close>

definition title_prompt :: "message list \<Rightarrow> message list" where
  "title_prompt sample_msgs =
     [\<lparr>role = ascii ''system'', content = title_instruction\<rparr>,
      \<lparr>role = ascii ''user'',
       content = join [0x0A]
         (map (\<lambda>msg. role msg @ ascii '': '' @ content msg) sample_msgs)\<rparr>]"

definition generate_title :: "title_api \<Rightarrow> session \<Rightarrow> str option \<times> session" where
  "generate_title tapi s =
     (let sample_msgs = take 2 (drop 1 (messages s))
      in if sample_msgs = [] then (None, s)
         else
           (case tapi (title_prompt sample_msgs) of
              Inl e \<Rightarrow> (None, print_end (title_failed (str_exn e)) [0x0A] s)
            | Inr None \<Rightarrow> (None, print_end (title_failed none_has_no_strip) [0x0A] s)
            | Inr (Some c) \<Rightarrow> (Some (sanitize_filename (strip c)), s)))"

text \<open>
  The files that \<open>save_conversation\<close> writes. The JSON artifact is kept as the value
  handed to \<open>json.dump\<close>; the transcript is kept as the text written.
\<close>

record json_artifact =
  created_at :: str
  model :: str
  message_count :: int
  saved_messages :: "message list"

datatype file_content = JsonFile json_artifact | TextFile str

text \<open>
  The file system: the directories that exist, the files by path, and whether
  directories can be created and files opened for writing; when they cannot,
  \<open>os.makedirs\<close> and \<open>open\<close> raise \<open>OSError\<close>.
\<close>

record filesystem =
  dirs :: "str list"
  files :: "str \<Rightarrow> file_content option"
  fs_writable :: bool

text \<open>A formatted value \<open>{x}\<close> in an f-string: \<open>None\<close> is rendered as the text \<open>None\<close>.\<close>

definition format_opt :: "str option \<Rightarrow> str" where
  "format_opt x = (case x of None \<Rightarrow> ascii ''None'' | Some t \<Rightarrow> t)"

definition ensure_dir :: "str \<Rightarrow> filesystem \<Rightarrow> exn + filesystem" where
  "ensure_dir directory fs =
     (if directory \<in> set (dirs fs) then Inr fs
      else if fs_writable fs then Inr (fs\<lparr>dirs := directory # dirs fs\<rparr>)
      else Inl (Exn OSError directory))"

definition write_file :: "str \<Rightarrow> file_content \<Rightarrow> filesystem \<Rightarrow> exn + filesystem" where
  "write_file path c fs =
     (if fs_writable fs then Inr (fs\<lparr>files := (files fs)(path \<mapsto> c)\<rparr>)
      else Inl (Exn OSError path))"

text \<open>The lines of the transcript after its two header lines.\<close>

fun transcript_lines :: "nat \<Rightarrow> message list \<Rightarrow> str" where
  "transcript_lines idx [] = []"
| "transcript_lines idx (msg # msgs) =
     (ascii ''['' @ str_nat (idx div 2 + 1) @ ascii ''] ''
      @ (if role msg = ascii ''user'' then [0x7528, 0x6237] else [0x52A9, 0x624B])
      @ [0xFF1A] @ content msg @ [0x0A])
     @ transcript_lines (idx + 1) msgs"

definition transcript :: "str \<Rightarrow> message list \<Rightarrow> str" where
  "transcript timestamp msgs =
     (ascii ''DeepSeek '' @ [0x5BF9, 0x8BDD, 0x8BB0, 0x5F55] @ ascii '' ('' @ timestamp
        @ ascii '')'' @ [0x0A])
     @ (replicate 50 0x3D @ [0x0A])
     @ transcript_lines 0 msgs"

text \<open>The names that \<open>save_conversation\<close> builds with f-strings.\<close>

definition base_name :: "str option \<Rightarrow> str \<Rightarrow> str" where
  "base_name title timestamp = format_opt title @ ascii ''_'' @ timestamp"

definition json_path :: "str option \<Rightarrow> str option \<Rightarrow> str \<Rightarrow> str" where
  "json_path home title timestamp =
     format_opt home @ ascii ''/json/'' @ base_name title timestamp @ ascii ''.json''"

definition txt_path :: "str option \<Rightarrow> str option \<Rightarrow> str \<Rightarrow> str" where
  "txt_path home title timestamp =
     format_opt home @ ascii ''/txt/'' @ base_name title timestamp @ ascii ''.txt''"

text \<open>The value given to \<open>json.dump\<close>: the system message is left out.\<close>

definition artifact :: "str \<Rightarrow> message list \<Rightarrow> json_artifact" where
  "artifact now_iso msgs =
     \<lparr>created_at = now_iso, model = ascii ''deepseek-chat'',
      message_count = int (length msgs) - 1, saved_messages = drop 1 msgs\<rparr>"

text \<open>
  \<open>save_conversation\<close>. \<open>home\<close> is the value of \<open>DEEPSEEK_HOME\<close>, possibly unset;
  \<open>timestamp\<close> and \<open>now_iso\<close> are what the clock gives to \<open>strftime\<close> and
  \<open>isoformat\<close>. The result is the returned boolean, or the exception of a failed
  file operation.
\<close>

definition save_conversation ::
  "title_api \<Rightarrow> str option \<Rightarrow> str \<Rightarrow> str \<Rightarrow> session \<Rightarrow> filesystem
     \<Rightarrow> (exn + bool) \<times> session \<times> filesystem" where
  "save_conversation tapi home timestamp now_iso s fs =
     (if \<not> should_save_conversation s then (Inr False, s, fs)
      else
        (case generate_title tapi s of
           (title, s1) \<Rightarrow>
             (case ensure_dir (format_opt home @ ascii ''/json'') fs of
                Inl e \<Rightarrow> (Inl e, s1, fs)
              | Inr fs1 \<Rightarrow>
                  (case ensure_dir (format_opt home @ ascii ''/txt'') fs1 of
                     Inl e \<Rightarrow> (Inl e, s1, fs1)
                   | Inr fs2 \<Rightarrow>
                       (case write_file (json_path home title timestamp)
                               (JsonFile (artifact now_iso (messages s1))) fs2 of
                          Inl e \<Rightarrow> (Inl e, s1, fs2)
                        | Inr fs3 \<Rightarrow>
                            (case write_file (txt_path home title timestamp)
                                    (TextFile (transcript timestamp (drop 1 (messages s1))))
                                    fs3 of
                               Inl e \<Rightarrow> (Inl e, s1, fs3)
                             | Inr fs4 \<Rightarrow> (Inr True, s1, fs4)))))))"

section \<open>Notions used to state the properties\<close>

text \<open>
  The value that \<open>sanitize\<close> returns for a string whenever it returns: the string
  itself when it is empty, the output of the three stages, or the sentinel when a
  stage raised.
\<close>

definition sanitized :: "fix_text \<Rightarrow> str \<Rightarrow> str" where
  "sanitized ftfy t =
     (if t = [] then t
      else (case pipeline ftfy t of Inl e \<Rightarrow> sentinel | Inr t3 \<Rightarrow> t3))"

text \<open>The list that \<open>add_message\<close> stores, given the list after the append.\<close>

definition trimmed :: "message list \<Rightarrow> message list" where
  "trimmed ms = (if length ms > 11 then [ms ! 0] @ suffix_slice 10 ms else ms)"

text \<open>What the round trip of stage 3 does to one code point.\<close>

definition replace_unencodable :: "nat \<Rightarrow> nat" where
  "replace_unencodable c = (if is_surrogate c \<or> 0x110000 \<le> c then 0x3F else c)"

text \<open>A \<open>str\<close> holds code points up to \<open>0x10FFFF\<close>.\<close>

definition valid_str :: "str \<Rightarrow> bool" where
  "valid_str t \<longleftrightarrow> list_all (\<lambda>c. c < 0x110000) t"

text \<open>
  Concrete inputs for the examples: a session before \<open>__init__\<close> has run, with a log
  file that can be appended to; the same with a log file that cannot be opened; and a
  \<open>fix_text\<close> that finds nothing to repair.
\<close>

definition fresh_session :: session where
  "fresh_session =
     \<lparr>messages = [], error_log = [], char_errors_log = [], log_writable = True, stdout = [],
      sent = []\<rparr>"

definition readonly_session :: session where
  "readonly_session =
     \<lparr>messages = [], error_log = [], char_errors_log = [], log_writable = False, stdout = [],
      sent = []\<rparr>"

definition no_repair :: fix_text where
  "no_repair t = Inr t"

text \<open>The session after \<open>__init__\<close>, and turn-messages \<open>u1, a1, u2, a2, ...\<close> to add.\<close>

definition started_session :: session where
  "started_session =
     fresh_session\<lparr>messages := [\<lparr>role = ascii ''system'', content = system_prompt\<rparr>]\<rparr>"

definition turn :: "nat \<Rightarrow> str \<times> str" where
  "turn i = (if even i then ascii ''user'' else ascii ''assistant'', [0x41 + i])"

definition turns :: "nat \<Rightarrow> (str \<times> str) list" where
  "turns n = map turn [0..<n]"

text \<open>The entry that \<open>add_message\<close> appends for a call with a role and a content.\<close>

definition stored :: "fix_text \<Rightarrow> str \<times> str \<Rightarrow> message" where
  "stored ftfy call = \<lparr>role = fst call, content = sanitized ftfy (snd call)\<rparr>"

text \<open>The session after five exchanges: the buffer holds 11 entries.\<close>

definition full_session :: session where
  "full_session = snd (add_messages no_repair (turns 10) started_session)"

text \<open>
  Concrete inputs for the examples of saving: an empty file system that can be
  written, a title service that raises, and one that answers.
\<close>

definition empty_fs :: filesystem where
  "empty_fs = \<lparr>dirs = [], files = Map.empty, fs_writable = True\<rparr>"

definition failing_title_api :: title_api where
  "failing_title_api msgs = Inl (Exn OtherError (ascii ''timeout''))"

definition answering_title_api :: title_api where
  "answering_title_api msgs = Inr (Some (ascii '' Chat: one! ''))"

definition stamp :: str where
  "stamp = ascii ''20240101_120000''"

definition iso_stamp :: str where
  "iso_stamp = ascii ''2024-01-01T12:00:00''"

text \<open>The sessions after one exchange (3 entries) and after two exchanges (5 entries).\<close>

definition one_exchange :: session where
  "one_exchange = snd (add_messages no_repair (turns 2) started_session)"

definition two_exchanges :: session where
  "two_exchanges = snd (add_messages no_repair (turns 4) started_session)"

text \<open>
  The escape notation for a code point of the basic plane: a backslash, \<open>u\<close>, and
  four lower-case hexadecimal digits; and the text in which every surrogate is
  written so.
\<close>

definition u_escape :: "nat \<Rightarrow> str" where
  "u_escape c = [0x5C, 0x75] @ hex_fixed 4 c"

definition with_escapes :: "str \<Rightarrow> str" where
  "with_escapes t = concat (map (\<lambda>c. if is_surrogate c then u_escape c else [c]) t)"

definition is_hexdigit :: "nat \<Rightarrow> bool" where
  "is_hexdigit x \<longleftrightarrow> x \<in> set (ascii ''0123456789abcdef'')"

text \<open>
  Notions for the streaming exchange. \<open>resanitized\<close> is the list that
  \<open>sanitize_message_history\<close> returns; \<open>history_after k\<close> is the history after
  \<open>k\<close> retries, each of which stored the re-sanitized list; \<open>request\<close> is the
  answer of the service to attempt \<open>k\<close> of a call that started from the history
  \<open>ms\<close> and has had \<open>k\<close> retries.
\<close>

definition resanitized :: "fix_text \<Rightarrow> message list \<Rightarrow> message list" where
  "resanitized ftfy ms =
     map (\<lambda>msg. \<lparr>role = role msg, content = sanitized ftfy (content msg)\<rparr>) ms"

definition history_after :: "fix_text \<Rightarrow> nat \<Rightarrow> message list \<Rightarrow> message list" where
  "history_after ftfy k ms = (resanitized ftfy ^^ k) ms"

definition request :: "fix_text \<Rightarrow> chat_api \<Rightarrow> nat \<Rightarrow> message list \<Rightarrow> api_response" where
  "request ftfy api k ms = api k (resanitized ftfy (history_after ftfy k ms))"

text \<open>
  The exception that ends an answer, if any: the one that \<open>create\<close> raises, or the
  first one that the stream raises. The fragments of a stream are the sanitized
  contents of its non-empty chunks; the text of an answer is their concatenation.
\<close>

fun first_failure :: "stream_event list \<Rightarrow> exn option" where
  "first_failure [] = None"
| "first_failure (StreamRaises e # rest) = Some e"
| "first_failure (Chunk c # rest) = first_failure rest"

definition response_failure :: "api_response \<Rightarrow> exn option" where
  "response_failure r = (case r of CreateRaises e \<Rightarrow> Some e | Stream evs \<Rightarrow> first_failure evs)"

fun fragments :: "fix_text \<Rightarrow> stream_event list \<Rightarrow> str list" where
  "fragments ftfy [] = []"
| "fragments ftfy (StreamRaises e # rest) = []"
| "fragments ftfy (Chunk None # rest) = fragments ftfy rest"
| "fragments ftfy (Chunk (Some c) # rest) =
     (if c = [] then fragments ftfy rest else sanitized ftfy c # fragments ftfy rest)"

definition response_text :: "fix_text \<Rightarrow> api_response \<Rightarrow> str" where
  "response_text ftfy r =
     (case r of CreateRaises e \<Rightarrow> [] | Stream evs \<Rightarrow> concat (fragments ftfy evs))"

definition encoding_failure :: "api_response \<Rightarrow> bool" where
  "encoding_failure r =
     (case response_failure r of
        None \<Rightarrow> False
      | Some e \<Rightarrow> class_of e = UnicodeEncodeError)"

definition other_failure :: "api_response \<Rightarrow> exn \<Rightarrow> bool" where
  "other_failure r e \<longleftrightarrow> response_failure r = Some e \<and> class_of e \<noteq> UnicodeEncodeError"

text \<open>
  What a call of \<open>stream_chat\<close> leaves behind. \<open>requests_sent k\<close> lists the message
  lists of the first \<open>k\<close> requests; \<open>reply\<close> is the entry that \<open>add_message\<close>
  stores for an answer; \<open>attempt_output\<close> is what one attempt prints before its
  outcome is known: nothing if \<open>create\<close> raises, else the prefix, the fragments up
  to the first failure, and the line feed if there is no failure; \<open>retries_output k\<close>
  is what \<open>k\<close> attempts that end in a retry print.
\<close>

definition requests_sent :: "fix_text \<Rightarrow> nat \<Rightarrow> message list \<Rightarrow> message list list" where
  "requests_sent ftfy k ms = map (\<lambda>i. resanitized ftfy (history_after ftfy i ms)) [0..<k]"

definition reply :: "fix_text \<Rightarrow> api_response \<Rightarrow> message" where
  "reply ftfy r = \<lparr>role = ascii ''assistant'', content = sanitized ftfy (response_text ftfy r)\<rparr>"

definition attempt_output :: "fix_text \<Rightarrow> api_response \<Rightarrow> str list" where
  "attempt_output ftfy r =
     (case r of
        CreateRaises e \<Rightarrow> []
      | Stream evs \<Rightarrow>
          [assistant_prefix] @ fragments ftfy evs
          @ (if first_failure evs = None then [[0x0A]] else []))"

definition retries_output ::
  "fix_text \<Rightarrow> chat_api \<Rightarrow> nat \<Rightarrow> nat \<Rightarrow> message list \<Rightarrow> str list" where
  "retries_output ftfy api max_retries k ms =
     concat (map (\<lambda>i. attempt_output ftfy (request ftfy api i ms)
                         @ [retry_message (i + 1) max_retries @ [0x0A]]) [0..<k])"

text \<open>
  An instance of the repair stage for the examples. It makes three of the repairs
  that \<open>ftfy.fix_text\<close> makes with its default settings, in the way that function
  makes them. The text is cut into segments, one ending after each line feed, and
  repaired segment by segment. HTML entities are decoded in a segment unless that
  segment or an earlier one holds \<open><\<close>; of the entities only \<open>&amp;\<close> is covered
  here. A carriage return, alone or before a line feed, becomes a line feed. A high
  surrogate followed by a low one becomes the character that the pair encodes, and
  every other surrogate becomes \<open>U+FFFD\<close>.
\<close>

fun segments_from :: "str \<Rightarrow> str \<Rightarrow> str list" where
  "segments_from cur [] = (if cur = [] then [] else [cur])"
| "segments_from cur (c # cs) =
     (if c = 0x0A then (cur @ [c]) # segments_from [] cs else segments_from (cur @ [c]) cs)"

fun unescape_html :: "str \<Rightarrow> str" where
  "unescape_html (a # b # c # d # e # rest) =
     (if [a, b, c, d, e] = [0x26, 0x61, 0x6D, 0x70, 0x3B] then 0x26 # unescape_html rest
      else a # unescape_html (b # c # d # e # rest))"
| "unescape_html t = t"

fun fix_line_breaks :: "str \<Rightarrow> str" where
  "fix_line_breaks (a # b # rest) =
     (if a = 0x0D \<and> b = 0x0A then 0x0A # fix_line_breaks rest
      else (if a = 0x0D then 0x0A else a) # fix_line_breaks (b # rest))"
| "fix_line_breaks [a] = [if a = 0x0D then 0x0A else a]"
| "fix_line_breaks [] = []"

fun fix_surrogates :: "str \<Rightarrow> str" where
  "fix_surrogates (a # b # rest) =
     (if 0xD800 \<le> a \<and> a \<le> 0xDBFF \<and> 0xDC00 \<le> b \<and> b \<le> 0xDFFF
      then (0x10000 + (a - 0xD800) * 0x400 + (b - 0xDC00)) # fix_surrogates rest
      else (if is_surrogate a then 0xFFFD else a) # fix_surrogates (b # rest))"
| "fix_surrogates [a] = [if is_surrogate a then 0xFFFD else a]"
| "fix_surrogates [] = []"

fun fix_segments :: "bool \<Rightarrow> str list \<Rightarrow> str" where
  "fix_segments unescape [] = []"
| "fix_segments unescape (seg # segs) =
     (let unescape1 = (unescape \<and> 0x3C \<notin> set seg);
          fixed = fix_surrogates
                    (fix_line_breaks (if unescape1 then unescape_html seg else seg))
      in fixed @ fix_segments unescape1 segs)"

definition ftfy_repairs :: fix_text where
  "ftfy_repairs t = Inr (fix_segments True (segments_from [] t))"

text \<open>
  Texts for the examples: \<open>&amp;\<close>, a carriage return and \<open><\<close>; the same with a
  line feed for the carriage return; the same with the entity decoded; and \<open>H\<close>, a
  lone high surrogate, \<open>i\<close>.
\<close>

definition entity_cr_text :: str where
  "entity_cr_text = [0x26, 0x61, 0x6D, 0x70, 0x3B, 0x0D, 0x3C]"

definition entity_lf_text :: str where
  "entity_lf_text = [0x26, 0x61, 0x6D, 0x70, 0x3B, 0x0A, 0x3C]"

definition decoded_lf_text :: str where
  "decoded_lf_text = [0x26, 0x0A, 0x3C]"

definition lone_surrogate_text :: str where
  "lone_surrogate_text = [0x48, 0xD83D, 0x69]"

text \<open>
  Remote services for the examples. The first raises \<open>UnicodeEncodeError\<close> from
  \<open>create\<close> at attempt 0 and from the stream, after one chunk, at attempt 1, and
  answers from attempt 2 on; the second raises \<open>UnicodeEncodeError\<close> at every
  attempt; the third raises \<open>UnicodeEncodeError\<close> at attempt 0 and a time-out
  afterwards; the fourth answers with one chunk, the text \<open>&amp;\<close>, carriage
  return, \<open><\<close>.
\<close>

definition codec_error :: exn where
  "codec_error = Exn UnicodeEncodeError (ascii ''codec cannot encode'')"

definition timeout_error :: exn where
  "timeout_error = Exn OtherError (ascii ''timeout'')"



definition encoding_then_timeout_api :: chat_api where
  "encoding_then_timeout_api attempt msgs =
     (if attempt = 0 then CreateRaises codec_error else CreateRaises timeout_error)"


text \<open>
  The session after \<open>__init__\<close> and one call \<open>add_message("user", x)\<close>, where
  \<open>x\<close> is \<open>&amp;\<close>, carriage return, \<open><\<close>, with the repairs of \<open>fix_text\<close>.
\<close>

definition entity_session :: session where
  "entity_session =
     snd (add_message ftfy_repairs (ascii ''user'') entity_cr_text started_session)"

section \<open>The UTF-8 round trip of stage 3\<close>

lemma utf8_first_1: "b < 0x80 \<Longrightarrow> utf8_first (b # r) = Some (b, r)"
  by (simp add: utf8_first_def)

lemma utf8_first_2:
  "2 \<le> h \<Longrightarrow> h < 32 \<Longrightarrow> l < 64 \<Longrightarrow>
   utf8_first ((0xC0 + h) # (0x80 + l) # r) = Some (h * 64 + l, r)"
  by (simp add: utf8_first_def is_cont_def)

lemma utf8_first_3:
  "h < 16 \<Longrightarrow> m < 64 \<Longrightarrow> l < 64 \<Longrightarrow> (h = 0 \<longrightarrow> 32 \<le> m) \<Longrightarrow> (h = 13 \<longrightarrow> m < 32) \<Longrightarrow>
   utf8_first ((0xE0 + h) # (0x80 + m) # (0x80 + l) # r) = Some (h * 4096 + m * 64 + l, r)"
  by (auto simp add: utf8_first_def is_cont_def)

lemma utf8_first_4:
  "h < 5 \<Longrightarrow> m < 64 \<Longrightarrow> k < 64 \<Longrightarrow> l < 64 \<Longrightarrow> (h = 0 \<longrightarrow> 16 \<le> m) \<Longrightarrow> (h = 4 \<longrightarrow> m < 16) \<Longrightarrow>
   utf8_first ((0xF0 + h) # (0x80 + m) # (0x80 + k) # (0x80 + l) # r)
     = Some (h * 262144 + m * 4096 + k * 64 + l, r)"
  by (auto simp add: utf8_first_def is_cont_def)

lemma div_4096: "(c::nat) div 4096 = c div 64 div 64"
  by (simp add: div_mult2_eq)

lemma div_262144: "(c::nat) div 262144 = c div 64 div 64 div 64"
  by (simp add: div_mult2_eq)

lemma div_4096_mod: "(c::nat) div 4096 mod 64 = c div 64 div 64 mod 64"
  by (simp only: div_4096)

lemma roundtrip_1:
  assumes "c < 0x80"
  shows "utf8_first (utf8_encode_cp c @ r) = Some (c, r)"
  using assms by (simp add: utf8_encode_cp_def utf8_first_1)

lemma roundtrip_2:
  assumes a: "0x80 \<le> c" "c < 0x800"
  shows "utf8_first (utf8_encode_cp c @ r) = Some (c, r)"
proof -
  have d: "2 \<le> c div 64" "c div 64 < 32" using a by arith+
  have enc: "utf8_encode_cp c = [0xC0 + c div 64, 0x80 + c mod 64]"
    using a by (simp add: utf8_encode_cp_def)
  show ?thesis using utf8_first_2[OF d, of "c mod 64" r] by (simp add: enc)
qed

lemma roundtrip_3:
  assumes a: "0x800 \<le> c" "c < 0x10000" and s: "\<not> is_surrogate c"
  shows "utf8_first (utf8_encode_cp c @ r) = Some (c, r)"
proof -
  define d where "d = c div 64"
  define l where "l = c mod 64"
  define h where "h = d div 64"
  define m where "m = d mod 64"
  have c: "c = d * 64 + l" "l < 64" by (simp_all add: d_def l_def)
  have dd: "d = h * 64 + m" "m < 64" by (simp_all add: h_def m_def)
  have s': "c < 0xD800 \<or> 0xDFFF < c" using s by (auto simp: is_surrogate_def)
  have hb: "h < 16" using a c dd by arith
  have e: "h = 0 \<longrightarrow> 32 \<le> m" using a c dd by arith
  have f: "h = 13 \<longrightarrow> m < 32" using a c dd s' by arith
  have v: "h * 4096 + m * 64 + l = c" using c dd by arith
  have "utf8_encode_cp c = [0xE0 + c div 4096, 0x80 + (c div 64) mod 64, 0x80 + c mod 64]"
    using a s by (simp add: utf8_encode_cp_def)
  then have enc: "utf8_encode_cp c = [0xE0 + h, 0x80 + m, 0x80 + l]"
    by (simp add: h_def m_def l_def d_def div_4096)
  show ?thesis using utf8_first_3[OF hb dd(2) c(2) e f, of r] by (simp add: enc v)
qed

lemma roundtrip_4:
  assumes a: "0x10000 \<le> c" "c < 0x110000"
  shows "utf8_first (utf8_encode_cp c @ r) = Some (c, r)"
proof -
  define d where "d = c div 64"
  define l where "l = c mod 64"
  define e where "e = d div 64"
  define k where "k = d mod 64"
  define h where "h = e div 64"
  define m where "m = e mod 64"
  have c: "c = d * 64 + l" "l < 64" by (simp_all add: d_def l_def)
  have dd: "d = e * 64 + k" "k < 64" by (simp_all add: e_def k_def)
  have ee: "e = h * 64 + m" "m < 64" by (simp_all add: h_def m_def)
  have hb: "h < 5" using a c dd ee by arith
  have p: "h = 0 \<longrightarrow> 16 \<le> m" using a c dd ee by arith
  have q: "h = 4 \<longrightarrow> m < 16" using a c dd ee by arith
  have v: "h * 262144 + m * 4096 + k * 64 + l = c" using c dd ee by arith
  have "utf8_encode_cp c = [0xF0 + c div 262144, 0x80 + (c div 4096) mod 64,
         0x80 + (c div 64) mod 64, 0x80 + c mod 64]"
    using a by (simp add: utf8_encode_cp_def is_surrogate_def)
  then have enc: "utf8_encode_cp c = [0xF0 + h, 0x80 + m, 0x80 + k, 0x80 + l]"
    by (simp add: h_def m_def l_def d_def e_def k_def div_4096_mod div_262144)
  show ?thesis using utf8_first_4[OF hb ee(2) dd(2) c(2) p q, of r] by (simp add: enc v)
qed

lemma roundtrip_replaced:
  assumes "is_surrogate c \<or> 0x110000 \<le> c"
  shows "utf8_first (utf8_encode_cp c @ r) = Some (0x3F, r)"
proof -
  have "utf8_encode_cp c = [0x3F]"
    using assms by (auto simp add: utf8_encode_cp_def is_surrogate_def)
  then show ?thesis by (simp add: utf8_first_1)
qed

lemma utf8_first_encode_cp:
  "utf8_first (utf8_encode_cp c @ r) = Some (replace_unencodable c, r)"
proof (cases "is_surrogate c \<or> 0x110000 \<le> c")
  case True
  then show ?thesis using roundtrip_replaced[of c r] by (simp add: replace_unencodable_def)
next
  case False
  then have n: "\<not> is_surrogate c" "c < 0x110000" by simp_all
  have "utf8_first (utf8_encode_cp c @ r) = Some (c, r)"
  proof -
    consider "c < 0x80" | "0x80 \<le> c \<and> c < 0x800" | "0x800 \<le> c \<and> c < 0x10000" | "0x10000 \<le> c"
      by linarith
    then show ?thesis
    proof cases
      case 1 then show ?thesis by (rule roundtrip_1)
    next
      case 2 then show ?thesis by (simp add: roundtrip_2)
    next
      case 3 then show ?thesis using n by (simp add: roundtrip_3)
    next
      case 4 then show ?thesis using n by (simp add: roundtrip_4)
    qed
  qed
  then show ?thesis using False by (simp add: replace_unencodable_def)
qed

lemma utf8_encode_cp_nonempty: "utf8_encode_cp c \<noteq> []"
  by (simp add: utf8_encode_cp_def)

lemma utf8_decode_encode:
  "utf8_decode (utf8_encode t) = Inr (map replace_unencodable t)"
proof (induction t)
  case Nil
  then show ?case by (simp add: utf8_encode_def utf8_decode.simps)
next
  case (Cons c t)
  have e: "utf8_encode (c # t) = utf8_encode_cp c @ utf8_encode t"
    by (simp add: utf8_encode_def)
  have ne: "utf8_encode_cp c @ utf8_encode t \<noteq> []"
    using utf8_encode_cp_nonempty[of c] by simp
  have "utf8_decode (utf8_encode_cp c @ utf8_encode t)
          = cons_ok (replace_unencodable c) (utf8_decode (utf8_encode t))"
    using utf8_encode_cp_nonempty[of c] utf8_first_encode_cp[of c "utf8_encode t"]
    by (subst utf8_decode.simps) simp
  then show ?case using Cons.IH e by (simp add: cons_ok_def)
qed

section \<open>Stage 2 and the value of the pipeline\<close>

lemma upt_0_4: "[0..<4] = [0, 1, 2, 3]"
  by code_simp

lemma hex_fixed_4:
  "hex_fixed 4 c = [hexdigit (c div 4096 mod 16), hexdigit (c div 256 mod 16),
     hexdigit (c div 16 mod 16), hexdigit (c mod 16)]"
  by (simp add: hex_fixed_def upt_0_4)

lemma surrogate_repl_hex:
  assumes "is_surrogate c"
  shows "surrogate_repl c = [0x5C, 0x75] @ hex_fixed 4 c"
proof -
  have "unicode_escape [c] = [0x5C, 0x75] @ hex_fixed 4 c"
    using assms by (simp add: unicode_escape_def unicode_escape_cp_def is_surrogate_def)
  then show ?thesis by (simp add: surrogate_repl_def suffix_slice_def hex_fixed_4)
qed

lemma hexdigit_ascii: "d < 16 \<Longrightarrow> hexdigit d < 0x80"
  by (simp add: hexdigit_def)

lemma surrogate_repl_ascii:
  assumes "is_surrogate c" "x \<in> set (surrogate_repl c)"
  shows "x < 0x80"
proof -
  have "x \<in> set ([0x5C, 0x75] @ hex_fixed 4 c)"
    using assms surrogate_repl_hex by simp
  then show ?thesis
    by (auto simp add: hex_fixed_4 hexdigit_ascii)
qed

lemma escape_surrogates_clean:
  assumes "x \<in> set (escape_surrogates t)"
  shows "\<not> is_surrogate x"
proof -
  obtain c where c: "c \<in> set t" "x \<in> set (if is_surrogate c then surrogate_repl c else [c])"
    using assms by (auto simp add: escape_surrogates_def)
  show ?thesis
  proof (cases "is_surrogate c")
    case True
    then have "x < 0x80" using c surrogate_repl_ascii by simp
    then show ?thesis by (simp add: is_surrogate_def)
  next
    case False
    then show ?thesis using c by simp
  qed
qed

lemma escape_surrogates_valid:
  assumes "valid_str t" "x \<in> set (escape_surrogates t)"
  shows "x < 0x110000"
proof -
  obtain c where c: "c \<in> set t" "x \<in> set (if is_surrogate c then surrogate_repl c else [c])"
    using assms by (auto simp add: escape_surrogates_def)
  have v: "c < 0x110000" using assms c by (simp add: valid_str_def list_all_iff)
  show ?thesis
  proof (cases "is_surrogate c")
    case True
    then have "x < 0x80" using c surrogate_repl_ascii by simp
    then show ?thesis by simp
  next
    case False
    then show ?thesis using c v by simp
  qed
qed

lemma stage3_after_stage2:
  assumes "valid_str t"
  shows "utf8_decode (utf8_encode (escape_surrogates t)) = Inr (escape_surrogates t)"
proof -
  have "map replace_unencodable (escape_surrogates t) = escape_surrogates t"
  proof (intro map_idI)
    fix x assume x: "x \<in> set (escape_surrogates t)"
    have "\<not> is_surrogate x" using x by (rule escape_surrogates_clean)
    moreover have "x < 0x110000" using assms x by (rule escape_surrogates_valid)
    ultimately show "replace_unencodable x = x" by (simp add: replace_unencodable_def)
  qed
  then show ?thesis by (simp add: utf8_decode_encode)
qed

lemma pipeline_value:
  assumes "ftfy t = Inr t1" "valid_str t1"
  shows "pipeline ftfy t = Inr (escape_surrogates t1)"
  using assms by (simp add: pipeline_def stage3_after_stage2)

lemma escape_surrogates_id:
  assumes "list_all (\<lambda>c. \<not> is_surrogate c) t"
  shows "escape_surrogates t = t"
  using assms by (induction t) (simp_all add: escape_surrogates_def)

section \<open>Properties of the sanitizer's effects\<close>

lemma log_error_frame:
  "messages (snd (log_error a b s)) = messages s"
  "log_writable (snd (log_error a b s)) = log_writable s"
  "stdout (snd (log_error a b s)) = stdout s"
  by (simp_all add: log_error_def Let_def)

lemma log_error_ok:
  "log_writable s \<Longrightarrow> fst (log_error a b s) = Inr ()"
  by (simp add: log_error_def Let_def)

lemma log_error_fails:
  "\<not> log_writable s \<Longrightarrow> fst (log_error a b s) = Inl open_error"
  by (simp add: log_error_def Let_def)

lemma sanitize_handler_frame:
  "messages (snd (sanitize_handler t e s)) = messages s"
  "log_writable (snd (sanitize_handler t e s)) = log_writable s"
  "stdout (snd (sanitize_handler t e s)) = stdout s"
  using log_error_frame[of t "str_exn e" s]
  by (auto simp add: sanitize_handler_def split: prod.splits sum.splits)

lemma sanitize_handler_ok:
  "log_writable s \<Longrightarrow> fst (sanitize_handler t e s) = Inr sentinel"
  using log_error_ok[of s t "str_exn e"]
  by (auto simp add: sanitize_handler_def split: prod.splits sum.splits)

lemma sanitize_handler_fails:
  "\<not> log_writable s \<Longrightarrow> fst (sanitize_handler t e s) = Inl open_error"
  using log_error_fails[of s t "str_exn e"]
  by (auto simp add: sanitize_handler_def split: prod.splits sum.splits)

lemma sanitize_text_frame:
  "messages (snd (sanitize_text ftfy t s)) = messages s"
  "log_writable (snd (sanitize_text ftfy t s)) = log_writable s"
  "stdout (snd (sanitize_text ftfy t s)) = stdout s"
proof -
  have "messages (snd (sanitize_text ftfy t s)) = messages s
     \<and> log_writable (snd (sanitize_text ftfy t s)) = log_writable s
     \<and> stdout (snd (sanitize_text ftfy t s)) = stdout s"
  proof (cases "pipeline ftfy t")
    case (Inl e)
    then show ?thesis by (simp add: sanitize_text_def sanitize_handler_frame)
  next
    case (Inr t3)
    show ?thesis
    proof (cases "log_error t t3 s")
      case (Pair res s1)
      have f: "messages s1 = messages s" "log_writable s1 = log_writable s"
        "stdout s1 = stdout s"
        using log_error_frame[of t t3 s] Pair by simp_all
      show ?thesis using Inr Pair f
        by (cases res) (simp_all add: sanitize_text_def sanitize_handler_frame)
    qed
  qed
  then show "messages (snd (sanitize_text ftfy t s)) = messages s"
    "log_writable (snd (sanitize_text ftfy t s)) = log_writable s"
    "stdout (snd (sanitize_text ftfy t s)) = stdout s" by simp_all
qed

lemma sanitize_text_ok:
  assumes "log_writable s"
  shows "fst (sanitize_text ftfy t s) = Inr (sanitized ftfy t)"
proof (cases "pipeline ftfy t")
  case (Inl e)
  then show ?thesis using assms
    by (simp add: sanitize_text_def sanitized_def sanitize_handler_ok)
next
  case (Inr t3)
  have "fst (log_error t t3 s) = Inr ()" using assms by (rule log_error_ok)
  then show ?thesis using Inr
    by (auto simp add: sanitize_text_def sanitized_def split: prod.splits sum.splits)
qed

lemma sanitize_text_result:
  assumes "fst (sanitize_text ftfy t s) = Inr r"
  shows "r = sanitized ftfy t"
proof (cases "log_writable s")
  case True
  then show ?thesis using assms sanitize_text_ok[of s ftfy t] by simp
next
  case False
  show ?thesis
  proof (cases "pipeline ftfy t")
    case (Inl e)
    then show ?thesis using assms sanitize_handler_fails[OF False, of t e]
      by (auto simp add: sanitize_text_def sanitized_def split: if_splits)
  next
    case (Inr t3)
    obtain res s1 where p: "log_error t t3 s = (res, s1)" by (cases "log_error t t3 s")
    have r: "res = Inl open_error" using log_error_fails[OF False, of t t3] p by simp
    have "\<not> log_writable s1" using log_error_frame(2)[of t t3 s] p False by simp
    then have "fst (sanitize_handler t open_error s1) = Inl open_error"
      by (rule sanitize_handler_fails)
    then show ?thesis using assms Inr p r
      by (auto simp add: sanitize_text_def sanitized_def split: if_splits)
  qed
qed

section \<open>Properties of the message buffer\<close>

lemma add_message_messages:
  "messages (snd (add_message ftfy r c s)) =
     (case fst (sanitize_text ftfy c s) of
        Inl e \<Rightarrow> messages s
      | Inr cl \<Rightarrow> trimmed (messages s @ [\<lparr>role = r, content = cl\<rparr>]))"
proof (cases "sanitize_text ftfy c s")
  case (Pair res s1)
  have f: "messages s1 = messages s" using sanitize_text_frame(1)[of ftfy c s] Pair by simp
  show ?thesis using Pair f
    by (cases res) (simp_all add: add_message_def trimmed_def Let_def)
qed

lemma trimmed_props:
  assumes "ms \<noteq> []" "length ms \<le> 11"
  shows "trimmed (ms @ [m]) \<noteq> []" "length (trimmed (ms @ [m])) \<le> 11"
    "hd (trimmed (ms @ [m])) = hd ms"
  using assms by (auto simp: trimmed_def suffix_slice_def nth_append hd_conv_nth hd_append)

lemma add_message_ok:
  assumes "log_writable s"
  shows "fst (add_message ftfy r c s) = Inr ()"
    and "messages (snd (add_message ftfy r c s))
           = trimmed (messages s @ [\<lparr>role = r, content = sanitized ftfy c\<rparr>])"
    and "log_writable (snd (add_message ftfy r c s))"
proof -
  obtain res s1 where p: "sanitize_text ftfy c s = (res, s1)"
    by (cases "sanitize_text ftfy c s")
  have r: "res = Inr (sanitized ftfy c)" using sanitize_text_ok[OF assms, of ftfy c] p by simp
  have w: "log_writable s1" using sanitize_text_frame(2)[of ftfy c s] p assms by simp
  show "fst (add_message ftfy r c s) = Inr ()"
    using p r by (simp add: add_message_def Let_def)
  show "messages (snd (add_message ftfy r c s))
           = trimmed (messages s @ [\<lparr>role = r, content = sanitized ftfy c\<rparr>])"
    using add_message_messages[of ftfy r c s] p r by simp
  show "log_writable (snd (add_message ftfy r c s))"
    using p r w by (simp add: add_message_def Let_def)
qed

lemma add_message_inv:
  assumes "messages s \<noteq> []" "length (messages s) \<le> 11"
  shows "messages (snd (add_message ftfy r c s)) \<noteq> []
       \<and> length (messages (snd (add_message ftfy r c s))) \<le> 11
       \<and> hd (messages (snd (add_message ftfy r c s))) = hd (messages s)"
  using assms trimmed_props[OF assms]
  by (simp add: add_message_messages split: sum.splits)

lemma add_messages_inv:
  assumes "messages s \<noteq> []" "length (messages s) \<le> 11"
  shows "messages (snd (add_messages ftfy calls s)) \<noteq> []
       \<and> length (messages (snd (add_messages ftfy calls s))) \<le> 11
       \<and> hd (messages (snd (add_messages ftfy calls s))) = hd (messages s)"
  using assms
proof (induction calls arbitrary: s)
  case Nil
  then show ?case by simp
next
  case (Cons call calls)
  obtain r c where rc: "call = (r, c)" by (cases call)
  obtain res s1 where p: "add_message ftfy r c s = (res, s1)"
    by (cases "add_message ftfy r c s")
  have i: "messages s1 \<noteq> []" "length (messages s1) \<le> 11" "hd (messages s1) = hd (messages s)"
    using add_message_inv[OF Cons.prems, of ftfy r c] p by simp_all
  show ?case
  proof (cases res)
    case (Inl e)
    then show ?thesis using rc p i by simp
  next
    case (Inr u)
    then show ?thesis using rc p i Cons.IH[OF i(1,2)] by simp
  qed
qed

lemma initialize_session_messages:
  assumes "initialize_session ftfy s = (Inr (), s0)"
  shows "messages s0 = [\<lparr>role = ascii ''system'', content = sanitized ftfy system_prompt\<rparr>]"
proof -
  obtain res s1 where p: "sanitize_text ftfy system_prompt s = (res, s1)"
    by (cases "sanitize_text ftfy system_prompt s")
  show ?thesis
  proof (cases res)
    case (Inl e)
    then show ?thesis using assms p by (simp add: initialize_session_def)
  next
    case (Inr c)
    then have "c = sanitized ftfy system_prompt"
      using sanitize_text_result[of ftfy system_prompt s c] p by simp
    then show ?thesis using assms p Inr by (auto simp add: initialize_session_def)
  qed
qed

text \<open>
  Claim C4. After the session has been initialized, whatever sequence of
  \<open>add_message\<close> calls is made (also one that an exception cuts short), the buffer
  holds at most 11 entries, is not empty, and its entry 0 is still the entry 0 that
  the initialization stored: the system message.
\<close>

theorem buffer_bounded_system_first:
  assumes "initialize_session ftfy s = (Inr (), s0)"
  shows "length (messages (snd (add_messages ftfy calls s0))) \<le> 11
       \<and> messages (snd (add_messages ftfy calls s0)) \<noteq> []
       \<and> messages (snd (add_messages ftfy calls s0)) ! 0 = messages s0 ! 0
       \<and> messages s0 ! 0 = \<lparr>role = ascii ''system'', content = sanitized ftfy system_prompt\<rparr>"
proof -
  have m: "messages s0 = [\<lparr>role = ascii ''system'', content = sanitized ftfy system_prompt\<rparr>]"
    using assms by (rule initialize_session_messages)
  have i: "messages s0 \<noteq> []" "length (messages s0) \<le> 11" using m by simp_all
  show ?thesis using add_messages_inv[OF i, of ftfy calls] m by (auto simp add: hd_conv_nth)
qed

section \<open>The contents of the buffer after a sequence of calls\<close>

lemma sanitize_text_unchanged:
  assumes "pipeline ftfy t = Inr t"
  shows "sanitize_text ftfy t s = (Inr t, s)"
  using assms by (simp add: sanitize_text_def)

lemma pipeline_no_repair:
  assumes "valid_str t" "list_all (\<lambda>c. \<not> is_surrogate c) t"
  shows "pipeline no_repair t = Inr t"
proof -
  have "pipeline no_repair t = Inr (escape_surrogates t)"
    using assms(1) by (intro pipeline_value) (simp_all add: no_repair_def)
  then show ?thesis using assms(2) by (simp add: escape_surrogates_id)
qed

lemma sanitized_no_repair:
  assumes "valid_str t" "list_all (\<lambda>c. \<not> is_surrogate c) t"
  shows "sanitized no_repair t = t"
  using pipeline_no_repair[OF assms] by (simp add: sanitized_def)

lemma system_prompt_plain:
  "valid_str system_prompt" "list_all (\<lambda>c. \<not> is_surrogate c) system_prompt"
  by (simp_all add: valid_str_def system_prompt_def is_surrogate_def)

lemma initialize_no_repair:
  "initialize_session no_repair fresh_session = (Inr (), started_session)"
proof -
  have "pipeline no_repair system_prompt = Inr system_prompt"
    using system_prompt_plain by (rule pipeline_no_repair)
  then have "sanitize_text no_repair system_prompt fresh_session
               = (Inr system_prompt, fresh_session)"
    by (rule sanitize_text_unchanged)
  then show ?thesis by (simp add: initialize_session_def started_session_def)
qed

lemma suffix_slice_suffix_slice:
  "suffix_slice k (suffix_slice k xs @ ys) = suffix_slice k (xs @ ys)"
  by (cases "length xs \<le> k") (auto simp add: suffix_slice_def add.commute)

lemma length_suffix_slice: "length (suffix_slice k xs) = min k (length xs)"
  by (auto simp add: suffix_slice_def)

lemma trimmed_system_rest:
  assumes "length rest \<le> 10"
  shows "trimmed (sys # rest @ [m]) = sys # suffix_slice 10 (rest @ [m])"
proof (cases "length rest = 10")
  case True
  then show ?thesis by (simp add: trimmed_def suffix_slice_def)
next
  case False
  then have "length rest < 10" using assms by simp
  then show ?thesis by (simp add: trimmed_def suffix_slice_def)
qed

lemma add_messages_contents:
  assumes "log_writable s" "messages s = sys # rest" "length rest \<le> 10"
  shows "fst (add_messages ftfy calls s) = Inr ()
       \<and> messages (snd (add_messages ftfy calls s))
           = sys # suffix_slice 10 (rest @ map (stored ftfy) calls)
       \<and> log_writable (snd (add_messages ftfy calls s))"
  using assms
proof (induction calls arbitrary: s rest)
  case Nil
  then show ?case by (simp add: suffix_slice_def)
next
  case (Cons call calls)
  obtain r c where rc: "call = (r, c)" by (cases call)
  obtain res s1 where p: "add_message ftfy r c s = (res, s1)"
    by (cases "add_message ftfy r c s")
  have ok: "res = Inr ()" "log_writable s1"
    "messages s1 = trimmed (messages s @ [stored ftfy call])"
    using add_message_ok[OF Cons.prems(1), of ftfy r c] p rc by (simp_all add: stored_def)
  have m1: "messages s1 = sys # suffix_slice 10 (rest @ [stored ftfy call])"
    using ok(3) Cons.prems(2,3) by (simp add: trimmed_system_rest)
  have l1: "length (suffix_slice 10 (rest @ [stored ftfy call])) \<le> 10"
    by (simp add: length_suffix_slice)
  have ih: "fst (add_messages ftfy calls s1) = Inr ()
       \<and> messages (snd (add_messages ftfy calls s1))
           = sys # suffix_slice 10 (suffix_slice 10 (rest @ [stored ftfy call])
                                     @ map (stored ftfy) calls)
       \<and> log_writable (snd (add_messages ftfy calls s1))"
    using Cons.IH[OF ok(2) m1 l1] .
  show ?case using ih rc p ok(1) by (simp add: suffix_slice_suffix_slice)
qed

text \<open>
  An instance of claim C4: the session is initialized with a \<open>fix_text\<close> that
  repairs nothing and twelve turn-messages are added.
\<close>

theorem buffer_bounded_system_first_witness:
  "initialize_session no_repair fresh_session = (Inr (), started_session)
   \<and> length (messages (snd (add_messages no_repair (turns 12) started_session))) \<le> 11
   \<and> messages (snd (add_messages no_repair (turns 12) started_session)) \<noteq> []
   \<and> messages (snd (add_messages no_repair (turns 12) started_session)) ! 0
       = messages started_session ! 0
   \<and> messages started_session ! 0
       = \<lparr>role = ascii ''system'', content = sanitized no_repair system_prompt\<rparr>"
  using buffer_bounded_system_first[OF initialize_no_repair, of "turns 12"]
    initialize_no_repair
  by simp

section \<open>Filling the buffer and evicting from it\<close>

lemma started_session_facts:
  "log_writable started_session"
  "messages started_session = [\<lparr>role = ascii ''system'', content = system_prompt\<rparr>]"
  by (simp_all add: started_session_def fresh_session_def)

lemma started_contents:
  "fst (add_messages no_repair calls started_session) = Inr ()"
  "messages (snd (add_messages no_repair calls started_session))
     = \<lparr>role = ascii ''system'', content = system_prompt\<rparr>
         # suffix_slice 10 (map (stored no_repair) calls)"
  "log_writable (snd (add_messages no_repair calls started_session))"
  using add_messages_contents[OF started_session_facts(1), of _ "[]" no_repair calls]
    started_session_facts(2)
  by simp_all

lemma length_turns: "length (turns n) = n"
  by (simp add: turns_def)

lemma nth_turns: "i < n \<Longrightarrow> turns n ! i = turn i"
  by (simp add: turns_def)

lemma turns_Suc: "turns (Suc n) = turns n @ [turn n]"
  by (simp add: turns_def)

lemma sanitized_letter:
  assumes "c < 0x80"
  shows "sanitized no_repair [c] = [c]"
  using assms by (intro sanitized_no_repair) (simp_all add: valid_str_def is_surrogate_def)

text \<open>
  The scenario of claim C8 as the specification words it does not hold: after eight
  turn-messages the buffer has 9 entries, not 11, and the ninth turn-message evicts
  nothing: the first turn-message is still entry 1.
\<close>

theorem buffer_of_eight_turns_counterexample:
  "length (messages (snd (add_messages no_repair (turns 8) started_session))) = 9
   \<and> length (messages (snd (add_messages no_repair (turns 9) started_session))) = 10
   \<and> messages (snd (add_messages no_repair (turns 9) started_session)) ! 1
       = stored no_repair (turn 0)"
  by (simp add: started_contents length_suffix_slice length_turns suffix_slice_def nth_turns)

lemma initialize_session_writable:
  "log_writable (snd (initialize_session ftfy s)) = log_writable s"
proof -
  obtain res s1 where p: "sanitize_text ftfy system_prompt s = (res, s1)"
    by (cases "sanitize_text ftfy system_prompt s")
  have w: "log_writable s1 = log_writable s"
    using sanitize_text_frame(2)[of ftfy system_prompt s] p by simp
  show ?thesis using p w by (cases res) (simp_all add: initialize_session_def)
qed

text \<open>
  Claim C8, amended. When the log file can be appended to, after \<open>n\<close> turn-messages
  the buffer holds the system message followed by the last ten of them, so it has
  \<open>min (n + 1) 11\<close> entries: 9 after four exchanges, 11 from five exchanges on. The
  earliest turn-message is evicted when the eleventh is added, and the system message
  stays at index 0.
\<close>

theorem buffer_full_after_ten_turns:
  assumes "initialize_session ftfy s = (Inr (), s0)" "log_writable s"
  shows "fst (add_messages ftfy calls s0) = Inr ()
       \<and> messages (snd (add_messages ftfy calls s0))
           = messages s0 ! 0 # suffix_slice 10 (map (stored ftfy) calls)
       \<and> length (messages (snd (add_messages ftfy calls s0))) = min (length calls + 1) 11
       \<and> (length calls = 11 \<longrightarrow>
            messages (snd (add_messages ftfy calls s0))
              = messages s0 ! 0 # map (stored ftfy) (tl calls))"
proof -
  have m: "messages s0 = [\<lparr>role = ascii ''system'', content = sanitized ftfy system_prompt\<rparr>]"
    using assms(1) by (rule initialize_session_messages)
  have w: "log_writable s0"
    using initialize_session_writable[of ftfy s] assms by simp
  have c: "fst (add_messages ftfy calls s0) = Inr ()
       \<and> messages (snd (add_messages ftfy calls s0))
           = \<lparr>role = ascii ''system'', content = sanitized ftfy system_prompt\<rparr>
               # suffix_slice 10 ([] @ map (stored ftfy) calls)
       \<and> log_writable (snd (add_messages ftfy calls s0))"
    using w m by (intro add_messages_contents) simp_all
  have t: "length calls = 11 \<Longrightarrow> suffix_slice 10 (map (stored ftfy) calls) = map (stored ftfy) (tl calls)"
    by (simp add: suffix_slice_def drop_Suc drop_map)
  show ?thesis using c m t by (auto simp add: length_suffix_slice)
qed


text \<open>An instance of the amended claim C8 with eleven turn-messages.\<close>

theorem buffer_full_after_ten_turns_witness:
  "initialize_session no_repair fresh_session = (Inr (), started_session)
   \<and> log_writable fresh_session
   \<and> length (turns 11) = 11
   \<and> fst (add_messages no_repair (turns 11) started_session) = Inr ()
   \<and> length (messages (snd (add_messages no_repair (turns 11) started_session))) = 11
   \<and> messages (snd (add_messages no_repair (turns 11) started_session))
       = messages started_session ! 0 # map (stored no_repair) (tl (turns 11))"
proof -
  have w: "log_writable fresh_session" by (simp add: fresh_session_def)
  have l: "length (turns 11) = 11" by (simp add: length_turns)
  note r = buffer_full_after_ten_turns[OF initialize_no_repair w, of "turns 11"]
  have a: "fst (add_messages no_repair (turns 11) started_session) = Inr ()"
    using r by blast
  have "length (messages (snd (add_messages no_repair (turns 11) started_session)))
          = min (length (turns 11) + 1) 11"
    using r by blast
  then have b: "length (messages (snd (add_messages no_repair (turns 11) started_session))) = 11"
    using l by simp
  have c: "messages (snd (add_messages no_repair (turns 11) started_session))
       = messages started_session ! 0 # map (stored no_repair) (tl (turns 11))"
    using r l by blast
  show ?thesis using initialize_no_repair w l a b c by blast
qed

text \<open>
  The last part of claim C9 does not hold after every eviction. With the buffer full
  after eleven alternating turn-messages, the twelfth call adds an assistant message
  and evicts an assistant message; the first entry after the system message is then a
  user message.
\<close>

theorem second_eviction_counterexample:
  "length (messages (snd (add_messages no_repair (turns 11) started_session))) = 11
   \<and> turns 12 = turns 11 @ [turn 11]
   \<and> role (messages (snd (add_messages no_repair (turns 12) started_session)) ! 1)
       = ascii ''user''
   \<and> ascii ''user'' \<noteq> ascii ''assistant''"
proof -
  have a: "length (messages (snd (add_messages no_repair (turns 11) started_session))) = 11"
    by (simp add: started_contents length_suffix_slice length_turns)
  have b: "turns 12 = turns 11 @ [turn 11]"
    using turns_Suc[of 11] by simp
  have "messages (snd (add_messages no_repair (turns 12) started_session)) ! 1
          = stored no_repair (turn 2)"
    by (simp add: started_contents suffix_slice_def length_turns nth_turns)
  then have c: "role (messages (snd (add_messages no_repair (turns 12) started_session)) ! 1)
          = ascii ''user''"
    by (simp add: stored_def turn_def)
  have d: "ascii ''user'' \<noteq> ascii ''assistant''"
    by (simp add: ascii_def)
  show ?thesis using a b c d by simp
qed

text \<open>
  Claim C9, amended. When \<open>add_message\<close> is called on a buffer of 11 entries, and
  the log file can be appended to, the result is entry 0, the former entries 2 to 10
  and the new entry: exactly one entry, the oldest turn-message, is evicted, not a
  pair. The first entry after the system message is then the former entry 2, with the
  role it had: it is an assistant message exactly when the former entry 2 was one.
\<close>

theorem overflow_evicts_entry_one:
  assumes "log_writable s" "length (messages s) = 11"
  shows "fst (add_message ftfy r c s) = Inr ()
       \<and> messages (snd (add_message ftfy r c s))
           = messages s ! 0 # drop 2 (messages s) @ [\<lparr>role = r, content = sanitized ftfy c\<rparr>]
       \<and> length (messages (snd (add_message ftfy r c s))) = 11
       \<and> messages (snd (add_message ftfy r c s)) ! 1 = messages s ! 2
       \<and> role (messages (snd (add_message ftfy r c s)) ! 1) = role (messages s ! 2)
       \<and> (role (messages (snd (add_message ftfy r c s)) ! 1) = ascii ''assistant''
            \<longleftrightarrow> role (messages s ! 2) = ascii ''assistant'')"
proof -
  obtain sys rest where m: "messages s = sys # rest" "length rest = 10"
    using assms(2) by (cases "messages s") simp_all
  have t: "trimmed (messages s @ [\<lparr>role = r, content = sanitized ftfy c\<rparr>])
             = sys # drop 1 rest @ [\<lparr>role = r, content = sanitized ftfy c\<rparr>]"
    using m by (simp add: trimmed_def suffix_slice_def)
  have n: "(drop 1 rest @ [\<lparr>role = r, content = sanitized ftfy c\<rparr>]) ! 0 = rest ! 1"
    using m(2) by (simp add: nth_append)
  show ?thesis
    using add_message_ok[OF assms(1), of ftfy r c] t m n by (simp add: drop_Suc)
qed

lemma full_session_facts:
  "log_writable full_session" "length (messages full_session) = 11"
  by (simp_all add: full_session_def started_contents length_suffix_slice length_turns)

text \<open>An instance of the amended claim C9 on the buffer left by five exchanges.\<close>

theorem overflow_evicts_entry_one_witness:
  "log_writable full_session \<and> length (messages full_session) = 11
   \<and> fst (add_message no_repair (ascii ''user'') [0x4B] full_session) = Inr ()
   \<and> messages (snd (add_message no_repair (ascii ''user'') [0x4B] full_session))
       = messages full_session ! 0 # drop 2 (messages full_session)
           @ [\<lparr>role = ascii ''user'', content = sanitized no_repair [0x4B]\<rparr>]
   \<and> length (messages (snd (add_message no_repair (ascii ''user'') [0x4B] full_session))) = 11
   \<and> messages (snd (add_message no_repair (ascii ''user'') [0x4B] full_session)) ! 1
       = messages full_session ! 2
   \<and> role (messages (snd (add_message no_repair (ascii ''user'') [0x4B] full_session)) ! 1)
       = role (messages full_session ! 2)"
  using overflow_evicts_entry_one[OF full_session_facts, of no_repair "ascii ''user''" "[0x4B]"]
    full_session_facts
  by blast

section \<open>Saving the conversation\<close>

lemma generate_title_messages:
  "messages (snd (generate_title tapi s)) = messages s"
  by (simp add: generate_title_def print_end_def Let_def split: sum.splits option.splits)

lemma ensure_dir_facts:
  assumes "fs_writable fs"
  shows "\<exists>fs1. ensure_dir d fs = Inr fs1 \<and> fs_writable fs1 \<and> files fs1 = files fs
           \<and> d \<in> set (dirs fs1) \<and> set (dirs fs) \<subseteq> set (dirs fs1)"
  using assms by (auto simp add: ensure_dir_def)

lemma paths_differ: "json_path home title ts \<noteq> txt_path home title ts"
proof -
  have "last (json_path home title ts) = 0x6E"
    by (simp add: json_path_def ascii_def)
  moreover have "last (txt_path home title ts) = 0x74"
    by (simp add: txt_path_def ascii_def)
  ultimately show ?thesis by auto
qed

lemma save_conversation_below_gate:
  assumes "length (messages s) < 5"
  shows "save_conversation tapi home ts now s fs = (Inr False, s, fs)"
  using assms by (simp add: save_conversation_def should_save_conversation_def)

lemma save_conversation_writes:
  assumes g: "5 \<le> length (messages s)" and w: "fs_writable fs"
  shows "fst (save_conversation tapi home ts now s fs) = Inr True
       \<and> files (snd (snd (save_conversation tapi home ts now s fs)))
            (json_path home (fst (generate_title tapi s)) ts)
           = Some (JsonFile (artifact now (messages s)))
       \<and> files (snd (snd (save_conversation tapi home ts now s fs)))
            (txt_path home (fst (generate_title tapi s)) ts)
           = Some (TextFile (transcript ts (drop 1 (messages s))))"
proof -
  obtain title s1 where t: "generate_title tapi s = (title, s1)"
    by (cases "generate_title tapi s")
  have m: "messages s1 = messages s" using generate_title_messages[of tapi s] t by simp
  obtain fs1 where d1: "ensure_dir (format_opt home @ ascii ''/json'') fs = Inr fs1"
    "fs_writable fs1" "files fs1 = files fs"
    using ensure_dir_facts[OF w] by blast
  obtain fs2 where d2: "ensure_dir (format_opt home @ ascii ''/txt'') fs1 = Inr fs2"
    "fs_writable fs2" "files fs2 = files fs1"
    using ensure_dir_facts[OF d1(2)] by blast
  have g': "should_save_conversation s" using g by (simp add: should_save_conversation_def)
  show ?thesis
    using g' t m d1 d2 paths_differ[of home title ts]
    by (simp add: save_conversation_def write_file_def)
qed

lemma generate_title_fails:
  assumes "tapi (title_prompt (take 2 (drop 1 (messages s)))) = Inl e"
  shows "fst (generate_title tapi s) = None"
  using assms by (simp add: generate_title_def Let_def)

lemma generate_title_no_content:
  assumes "tapi (title_prompt (take 2 (drop 1 (messages s)))) = Inr None"
  shows "fst (generate_title tapi s) = None"
  using assms by (simp add: generate_title_def Let_def)

lemma exchange_lengths:
  "length (messages one_exchange) = 3" "length (messages two_exchanges) = 5"
  by (simp_all add: one_exchange_def two_exchanges_def started_contents length_suffix_slice
      length_turns)

lemma empty_fs_writable: "fs_writable empty_fs"
  by (simp add: empty_fs_def)

text \<open>
  Claim C7. With fewer than 5 entries in the buffer (the system message and one
  exchange make 3), \<open>save_conversation\<close> returns \<open>False\<close> and leaves the file system
  and the session as they were. With 5 entries or more, on a file system that can be
  written, it returns \<open>True\<close>, and afterwards the JSON artifact and the transcript
  are the contents of the two paths.
\<close>

theorem save_gate:
  "(length (messages s) < 5 \<longrightarrow>
      save_conversation tapi home ts now s fs = (Inr False, s, fs))
   \<and> (5 \<le> length (messages s) \<and> fs_writable fs \<longrightarrow>
        fst (save_conversation tapi home ts now s fs) = Inr True
        \<and> files (snd (snd (save_conversation tapi home ts now s fs)))
             (json_path home (fst (generate_title tapi s)) ts)
            = Some (JsonFile (artifact now (messages s)))
        \<and> files (snd (snd (save_conversation tapi home ts now s fs)))
             (txt_path home (fst (generate_title tapi s)) ts)
            = Some (TextFile (transcript ts (drop 1 (messages s)))))"
  using save_conversation_below_gate[of s tapi home ts now fs]
    save_conversation_writes[of s fs tapi home ts now]
  by blast

text \<open>An instance of claim C7 below the gate (one exchange) and at it (two exchanges).\<close>

theorem save_gate_witness:
  "length (messages one_exchange) < 5
   \<and> save_conversation answering_title_api None stamp iso_stamp one_exchange empty_fs
       = (Inr False, one_exchange, empty_fs)
   \<and> 5 \<le> length (messages two_exchanges) \<and> fs_writable empty_fs
   \<and> fst (save_conversation answering_title_api None stamp iso_stamp two_exchanges empty_fs)
       = Inr True
   \<and> files (snd (snd (save_conversation answering_title_api None stamp iso_stamp
                         two_exchanges empty_fs)))
        (json_path None (fst (generate_title answering_title_api two_exchanges)) stamp)
       = Some (JsonFile (artifact iso_stamp (messages two_exchanges)))
   \<and> files (snd (snd (save_conversation answering_title_api None stamp iso_stamp
                         two_exchanges empty_fs)))
        (txt_path None (fst (generate_title answering_title_api two_exchanges)) stamp)
       = Some (TextFile (transcript stamp (drop 1 (messages two_exchanges))))"
proof -
  have a: "length (messages one_exchange) < 5" by (simp add: exchange_lengths)
  have b: "5 \<le> length (messages two_exchanges)" by (simp add: exchange_lengths)
  show ?thesis
    using a b empty_fs_writable
      save_gate[of one_exchange answering_title_api None stamp iso_stamp empty_fs]
      save_gate[of two_exchanges answering_title_api None stamp iso_stamp empty_fs]
    by blast
qed

text \<open>
  Claim C10. When the gate is met and \<open>_generate_title\<close> returns \<open>None\<close>, both files
  are still written, and their names start with the text \<open>None_\<close> followed by the
  timestamp: the f-string renders \<open>None\<close>, no other title is put in its place.
\<close>

theorem save_with_absent_title:
  assumes "5 \<le> length (messages s)" "fs_writable fs" "fst (generate_title tapi s) = None"
  shows "fst (save_conversation tapi home ts now s fs) = Inr True
       \<and> files (snd (snd (save_conversation tapi home ts now s fs)))
            (format_opt home @ ascii ''/json/'' @ ascii ''None_'' @ ts @ ascii ''.json'')
           = Some (JsonFile (artifact now (messages s)))
       \<and> files (snd (snd (save_conversation tapi home ts now s fs)))
            (format_opt home @ ascii ''/txt/'' @ ascii ''None_'' @ ts @ ascii ''.txt'')
           = Some (TextFile (transcript ts (drop 1 (messages s))))"
proof -
  have j: "json_path home None ts
             = format_opt home @ ascii ''/json/'' @ ascii ''None_'' @ ts @ ascii ''.json''"
    by (simp add: json_path_def base_name_def format_opt_def ascii_def)
  have t: "txt_path home None ts
             = format_opt home @ ascii ''/txt/'' @ ascii ''None_'' @ ts @ ascii ''.txt''"
    by (simp add: txt_path_def base_name_def format_opt_def ascii_def)
  show ?thesis
    using save_conversation_writes[OF assms(1,2), of tapi home ts now] assms(3) j t
    by simp
qed

text \<open>An instance of claim C10: the title service raises.\<close>

theorem save_with_absent_title_witness:
  "5 \<le> length (messages two_exchanges) \<and> fs_writable empty_fs
   \<and> fst (generate_title failing_title_api two_exchanges) = None
   \<and> fst (save_conversation failing_title_api None stamp iso_stamp two_exchanges empty_fs)
       = Inr True
   \<and> files (snd (snd (save_conversation failing_title_api None stamp iso_stamp
                         two_exchanges empty_fs)))
        (format_opt None @ ascii ''/json/'' @ ascii ''None_'' @ stamp @ ascii ''.json'')
       = Some (JsonFile (artifact iso_stamp (messages two_exchanges)))
   \<and> files (snd (snd (save_conversation failing_title_api None stamp iso_stamp
                         two_exchanges empty_fs)))
        (format_opt None @ ascii ''/txt/'' @ ascii ''None_'' @ stamp @ ascii ''.txt'')
       = Some (TextFile (transcript stamp (drop 1 (messages two_exchanges))))"
proof -
  have b: "5 \<le> length (messages two_exchanges)" by (simp add: exchange_lengths)
  have n: "fst (generate_title failing_title_api two_exchanges) = None"
    by (rule generate_title_fails) (simp add: failing_title_api_def)
  show ?thesis
    using b n empty_fs_writable
      save_with_absent_title[OF b empty_fs_writable n, of None stamp iso_stamp]
    by blast
qed

section \<open>What the sanitizer returns\<close>

lemma replace_unencodable_clean:
  "\<not> is_surrogate (replace_unencodable c)" "replace_unencodable c < 0x110000"
  by (auto simp add: replace_unencodable_def is_surrogate_def)

lemma pipeline_output_clean:
  assumes "pipeline ftfy t = Inr t3"
  shows "list_all (\<lambda>c. \<not> is_surrogate c) t3" "valid_str t3"
proof -
  obtain t1 where "t3 = map replace_unencodable (escape_surrogates t1)"
    using assms by (auto simp add: pipeline_def utf8_decode_encode split: sum.splits)
  then show "list_all (\<lambda>c. \<not> is_surrogate c) t3" "valid_str t3"
    by (simp_all add: list_all_iff valid_str_def replace_unencodable_clean)
qed

lemma sentinel_clean:
  "list_all (\<lambda>c. \<not> is_surrogate c) sentinel" "valid_str sentinel" "sentinel \<noteq> []"
  by (simp_all add: sentinel_def valid_str_def is_surrogate_def)

lemma sanitized_clean:
  "list_all (\<lambda>c. \<not> is_surrogate c) (sanitized ftfy t) \<and> valid_str (sanitized ftfy t)"
proof (cases "t = []")
  case True
  then show ?thesis by (simp add: sanitized_def valid_str_def)
next
  case False
  show ?thesis
  proof (cases "pipeline ftfy t")
    case (Inl e)
    then show ?thesis using False sentinel_clean by (simp add: sanitized_def)
  next
    case (Inr t3)
    then show ?thesis using False pipeline_output_clean[OF Inr] by (simp add: sanitized_def)
  qed
qed

lemma sanitize_text_fixed_point:
  assumes "list_all (\<lambda>c. \<not> is_surrogate c) y" "valid_str y" "ftfy y = Inr y"
  shows "sanitize_text ftfy y s = (Inr y, s)"
proof (cases "y = []")
  case True
  then show ?thesis by (simp add: sanitize_text_def)
next
  case False
  have "pipeline ftfy y = Inr (escape_surrogates y)"
    using assms(3,2) by (rule pipeline_value)
  then have "pipeline ftfy y = Inr y"
    using assms(1) by (simp add: escape_surrogates_id)
  then show ?thesis by (rule sanitize_text_unchanged)
qed

lemma sanitize_text_raises_on_surrogate:
  assumes "\<not> log_writable s" "c \<in> set t" "is_surrogate c"
  shows "fst (sanitize_text ftfy t s) = Inl open_error"
proof -
  have ne: "t \<noteq> []" using assms(2) by auto
  show ?thesis
  proof (cases "pipeline ftfy t")
    case (Inl e)
    then show ?thesis
      using ne sanitize_handler_fails[OF assms(1), of t e] by (simp add: sanitize_text_def)
  next
    case (Inr t3)
    have "list_all (\<lambda>c. \<not> is_surrogate c) t3" using Inr by (rule pipeline_output_clean)
    then have d: "t \<noteq> t3" using assms(2,3) by (auto simp add: list_all_iff)
    obtain res s1 where p: "log_error t t3 s = (res, s1)" by (cases "log_error t t3 s")
    have r: "res = Inl open_error" using log_error_fails[OF assms(1), of t t3] p by simp
    have "\<not> log_writable s1" using log_error_frame(2)[of t t3 s] p assms(1) by simp
    then have "fst (sanitize_handler t open_error s1) = Inl open_error"
      by (rule sanitize_handler_fails)
    then show ?thesis using Inr ne d p r by (simp add: sanitize_text_def)
  qed
qed

text \<open>
  Claim C1 at a failing input. The text is a lone surrogate and the log file cannot be
  opened. Whatever \<open>fix_text\<close> does, the text changes or a stage raises, so
  \<open>_log_error\<close> is called and raises inside \<open>try\<close>; the handler calls
  \<open>_log_error\<close> again, outside any \<open>try\<close>, and \<open>sanitize\<close> lets the
  \<open>OSError\<close> out instead of returning the sentinel.
\<close>

theorem sanitize_propagates_log_failure:
  "fst (sanitize ftfy (Some [0xD800]) readonly_session) = Inl open_error"
proof -
  have w: "\<not> log_writable readonly_session" by (simp add: readonly_session_def)
  have m: "(0xD800::nat) \<in> set [0xD800]" by simp
  have u: "is_surrogate 0xD800" by (simp add: is_surrogate_def)
  have "fst (sanitize_text ftfy [0xD800] readonly_session) = Inl open_error"
    using w m u by (rule sanitize_text_raises_on_surrogate)
  then show ?thesis
    by (cases "sanitize_text ftfy [0xD800] readonly_session") (simp add: sanitize_def)
qed

lemma escape_surrogates_with_escapes: "escape_surrogates t = with_escapes t"
proof -
  have "(if is_surrogate c then surrogate_repl c else [c])
          = (if is_surrogate c then u_escape c else [c])" for c
    by (simp add: surrogate_repl_hex u_escape_def)
  then show ?thesis by (simp add: escape_surrogates_def with_escapes_def)
qed

lemma hexdigit_is_hexdigit:
  assumes "d < 16"
  shows "is_hexdigit (hexdigit d)"
proof -
  have "d \<in> {0, 1, 2, 3, 4, 5, 6, 7, 8, 9, 10, 11, 12, 13, 14, 15}"
    using assms by simp arith
  then show ?thesis
    by (auto simp add: hexdigit_def is_hexdigit_def ascii_def)
qed

lemma u_escape_shape:
  "length (u_escape c) = 6" "take 2 (u_escape c) = [0x5C, 0x75]"
  "list_all is_hexdigit (drop 2 (u_escape c))"
  by (simp_all add: u_escape_def hex_fixed_4 hexdigit_is_hexdigit)

lemma sanitized_value:
  assumes "ftfy t = Inr t1" "valid_str t1" "t \<noteq> []"
  shows "sanitized ftfy t = with_escapes t1"
  using assms pipeline_value[of ftfy t t1]
  by (simp add: sanitized_def escape_surrogates_with_escapes)

lemma with_escapes_clean: "list_all (\<lambda>c. \<not> is_surrogate c) (with_escapes t)"
  using escape_surrogates_clean[of _ t]
  by (auto simp add: list_all_iff escape_surrogates_with_escapes)

lemma consume_one_chunk:
  assumes "log_writable s" "t \<noteq> []"
  shows "fst (consume_stream ftfy [Chunk (Some t)] acc s) = Inr (acc @ [sanitized ftfy t])"
    and "stdout (snd (consume_stream ftfy [Chunk (Some t)] acc s))
           = stdout s @ [sanitized ftfy t]"
proof -
  obtain res s1 where p: "sanitize_text ftfy t s = (res, s1)"
    by (cases "sanitize_text ftfy t s")
  have r: "res = Inr (sanitized ftfy t)" using sanitize_text_ok[OF assms(1), of ftfy t] p by simp
  have o: "stdout s1 = stdout s" using sanitize_text_frame(3)[of ftfy t s] p by simp
  show "fst (consume_stream ftfy [Chunk (Some t)] acc s) = Inr (acc @ [sanitized ftfy t])"
    using assms(2) p r by simp
  show "stdout (snd (consume_stream ftfy [Chunk (Some t)] acc s))
           = stdout s @ [sanitized ftfy t]"
    using assms(2) p r o by (simp add: print_end_def)
qed

lemma sanitize_escapes_fix_text_output:
  assumes "log_writable s" "ftfy t = Inr t1" "valid_str t1" "t \<noteq> []"
  shows "fst (sanitize_text ftfy t s) = Inr (with_escapes t1)"
    and "list_all (\<lambda>c. \<not> is_surrogate c) (with_escapes t1)"
proof -
  have v: "sanitized ftfy t = with_escapes t1"
    using assms(2,3,4) by (rule sanitized_value)
  show "fst (sanitize_text ftfy t s) = Inr (with_escapes t1)"
    using sanitize_text_ok[OF assms(1), of ftfy t] v by simp
  show "list_all (\<lambda>c. \<not> is_surrogate c) (with_escapes t1)"
    by (rule with_escapes_clean)
qed

lemma with_escapes_id:
  assumes "list_all (\<lambda>c. \<not> is_surrogate c) t"
  shows "with_escapes t = t"
  using escape_surrogates_id[OF assms] by (simp add: escape_surrogates_with_escapes)

lemma with_escapes_example:
  "with_escapes lone_surrogate_text = [0x48, 0x5C, 0x75, 0x64, 0x38, 0x33, 0x64, 0x69]"
  by (simp add: with_escapes_def u_escape_def hex_fixed_4 hexdigit_def is_surrogate_def
      lone_surrogate_text_def)

lemma ftfy_repairs_examples:
  "ftfy_repairs entity_cr_text = Inr entity_lf_text"
  "ftfy_repairs entity_lf_text = Inr decoded_lf_text"
  "ftfy_repairs lone_surrogate_text = Inr [0x48, 0xFFFD, 0x69]"
  "ftfy_repairs [0x61, 0x0D, 0x62] = Inr [0x61, 0x0A, 0x62]"
  "ftfy_repairs [0x61, 0x0A, 0x62] = Inr [0x61, 0x0A, 0x62]"
  by (simp_all add: ftfy_repairs_def entity_cr_text_def entity_lf_text_def decoded_lf_text_def
      lone_surrogate_text_def is_surrogate_def)

lemma sanitized_repaired:
  assumes "ftfy t = Inr t1" "valid_str t1" "list_all (\<lambda>c. \<not> is_surrogate c) t1" "t \<noteq> []"
  shows "sanitized ftfy t = t1"
  using sanitized_value[where ftfy = ftfy and t = t and ?t1.0 = t1] assms
    with_escapes_id[OF assms(3)]
  by simp

lemma sanitized_ftfy_repairs:
  "sanitized ftfy_repairs entity_cr_text = entity_lf_text"
  "sanitized ftfy_repairs entity_lf_text = decoded_lf_text"
  "sanitized ftfy_repairs lone_surrogate_text = [0x48, 0xFFFD, 0x69]"
  "sanitized ftfy_repairs [0x61, 0x0D, 0x62] = [0x61, 0x0A, 0x62]"
proof -
  show "sanitized ftfy_repairs entity_cr_text = entity_lf_text"
    by (rule sanitized_repaired, rule ftfy_repairs_examples)
      (simp_all add: valid_str_def is_surrogate_def entity_lf_text_def entity_cr_text_def)
  show "sanitized ftfy_repairs entity_lf_text = decoded_lf_text"
    by (rule sanitized_repaired, rule ftfy_repairs_examples)
      (simp_all add: valid_str_def is_surrogate_def entity_lf_text_def decoded_lf_text_def)
  show "sanitized ftfy_repairs lone_surrogate_text = [0x48, 0xFFFD, 0x69]"
    by (rule sanitized_repaired, rule ftfy_repairs_examples)
      (simp_all add: valid_str_def is_surrogate_def lone_surrogate_text_def)
  show "sanitized ftfy_repairs [0x61, 0x0D, 0x62] = [0x61, 0x0A, 0x62]"
    by (rule sanitized_repaired, rule ftfy_repairs_examples)
      (simp_all add: valid_str_def is_surrogate_def)
qed

lemma sanitize_ok:
  assumes "log_writable s"
  shows "fst (sanitize ftfy (Some t) s) = Inr (Some (sanitized ftfy t))"
    and "log_writable (snd (sanitize ftfy (Some t) s))"
proof -
  obtain res s1 where p: "sanitize_text ftfy t s = (res, s1)"
    by (cases "sanitize_text ftfy t s")
  have r: "res = Inr (sanitized ftfy t)" using sanitize_text_ok[OF assms, of ftfy t] p by simp
  have w: "log_writable s1" using sanitize_text_frame(2)[of ftfy t s] p assms by simp
  show "fst (sanitize ftfy (Some t) s) = Inr (Some (sanitized ftfy t))"
    using p r by (simp add: sanitize_def)
  show "log_writable (snd (sanitize ftfy (Some t) s))"
    using p r w by (simp add: sanitize_def)
qed

text \<open>
  Claim C3 at a failing input. A text that holds a surrogate code point is changed by
  the stages, or makes one of them raise, whatever \<open>fix_text\<close> does; so \<open>sanitize\<close>
  calls \<open>_log_error\<close>, and when the log file cannot be opened the \<open>OSError\<close> leaves
  \<open>sanitize\<close> as in claim C1. The loop over the stream lets it through: the chunk is
  neither printed nor accumulated, in escaped form or any other.
\<close>

theorem surrogate_chunk_raises:
  assumes "\<not> log_writable s" "c \<in> set t" "is_surrogate c"
  shows "fst (sanitize ftfy (Some t) s) = Inl open_error
       \<and> fst (consume_stream ftfy [Chunk (Some t)] acc s) = Inl open_error
       \<and> stdout (snd (consume_stream ftfy [Chunk (Some t)] acc s)) = stdout s"
proof -
  have ne: "t \<noteq> []" using assms(2) by auto
  obtain res s1 where p: "sanitize_text ftfy t s = (res, s1)"
    by (cases "sanitize_text ftfy t s")
  have r: "res = Inl open_error"
    using sanitize_text_raises_on_surrogate[OF assms, of ftfy] p by simp
  have o: "stdout s1 = stdout s" using sanitize_text_frame(3)[of ftfy t s] p by simp
  show ?thesis using ne p r o by (simp add: sanitize_def)
qed

text \<open>
  An instance of the failure: the chunk \<open>H\<close>, a lone high surrogate \<open>U+D83D\<close>, \<open>i\<close>,
  with a log file that cannot be opened.
\<close>

theorem surrogate_chunk_raises_witness:
  "\<not> log_writable readonly_session \<and> 0xD83D \<in> set lone_surrogate_text
   \<and> is_surrogate 0xD83D
   \<and> fst (sanitize ftfy_repairs (Some lone_surrogate_text) readonly_session) = Inl open_error
   \<and> fst (consume_stream ftfy_repairs [Chunk (Some lone_surrogate_text)] []
             readonly_session) = Inl open_error
   \<and> stdout (snd (consume_stream ftfy_repairs [Chunk (Some lone_surrogate_text)] []
                     readonly_session)) = stdout readonly_session"
proof -
  have w: "\<not> log_writable readonly_session" by (simp add: readonly_session_def)
  have m: "0xD83D \<in> set lone_surrogate_text" by (simp add: lone_surrogate_text_def)
  have u: "is_surrogate 0xD83D" by (simp add: is_surrogate_def)
  show ?thesis
    using surrogate_chunk_raises[OF w m u, of ftfy_repairs "[]"] w m u by blast
qed

text \<open>
  The same chunk with a log file that can be appended to, and the repairs of
  \<open>fix_text\<close>: the lone surrogate leaves stage 1 as \<open>U+FFFD\<close>, stage 2 finds nothing
  to escape, and \<open>H\<close>, \<open>U+FFFD\<close>, \<open>i\<close> is what \<open>sanitize\<close> returns and what the loop
  over the stream prints and accumulates; it is not the escaped form.
\<close>

lemma lone_surrogate_replaced:
  "fst (sanitize ftfy_repairs (Some lone_surrogate_text) fresh_session)
     = Inr (Some [0x48, 0xFFFD, 0x69])"
  "fst (consume_stream ftfy_repairs [Chunk (Some lone_surrogate_text)] [] fresh_session)
     = Inr [[0x48, 0xFFFD, 0x69]]"
  "stdout (snd (consume_stream ftfy_repairs [Chunk (Some lone_surrogate_text)] []
                  fresh_session)) = [[0x48, 0xFFFD, 0x69]]"
  "with_escapes lone_surrogate_text \<noteq> [0x48, 0xFFFD, 0x69]"
proof -
  have w: "log_writable fresh_session" by (simp add: fresh_session_def)
  have e: "lone_surrogate_text \<noteq> []" by (simp add: lone_surrogate_text_def)
  show "fst (sanitize ftfy_repairs (Some lone_surrogate_text) fresh_session)
     = Inr (Some [0x48, 0xFFFD, 0x69])"
    using sanitize_ok(1)[OF w, of ftfy_repairs lone_surrogate_text]
    by (simp add: sanitized_ftfy_repairs)
  show "fst (consume_stream ftfy_repairs [Chunk (Some lone_surrogate_text)] [] fresh_session)
     = Inr [[0x48, 0xFFFD, 0x69]]"
    using consume_one_chunk(1)[OF w e, of ftfy_repairs "[]"]
    by (simp add: sanitized_ftfy_repairs)
  show "stdout (snd (consume_stream ftfy_repairs [Chunk (Some lone_surrogate_text)] []
                  fresh_session)) = [[0x48, 0xFFFD, 0x69]]"
    using consume_one_chunk(2)[OF w e, of ftfy_repairs "[]"]
    by (simp add: sanitized_ftfy_repairs fresh_session_def)
  show "with_escapes lone_surrogate_text \<noteq> [0x48, 0xFFFD, 0x69]"
    by (simp add: with_escapes_example)
qed

text \<open>
  Claim C2 as the specification words it does not hold for every string. With the
  repairs of \<open>fix_text\<close>, the text \<open>&amp;\<close>, carriage return, \<open><\<close> is one segment
  that holds \<open><\<close>: the entity is kept and the carriage return becomes a line feed.
  In the result the entity stands in a segment of its own, without \<open><\<close>, so a second
  call decodes it: \<open>sanitize(sanitize(x))\<close> differs from \<open>sanitize(x)\<close>.
\<close>

theorem sanitize_twice_counterexample:
  "fst (sanitize ftfy_repairs (Some entity_cr_text) fresh_session) = Inr (Some entity_lf_text)
   \<and> fst (sanitize ftfy_repairs (Some entity_lf_text)
            (snd (sanitize ftfy_repairs (Some entity_cr_text) fresh_session)))
       = Inr (Some decoded_lf_text)
   \<and> decoded_lf_text \<noteq> entity_lf_text"
proof -
  have w: "log_writable fresh_session" by (simp add: fresh_session_def)
  have a: "fst (sanitize ftfy_repairs (Some entity_cr_text) fresh_session)
             = Inr (Some entity_lf_text)"
    using sanitize_ok(1)[OF w, of ftfy_repairs entity_cr_text]
    by (simp add: sanitized_ftfy_repairs)
  have w1: "log_writable (snd (sanitize ftfy_repairs (Some entity_cr_text) fresh_session))"
    using w by (rule sanitize_ok(2))
  have b: "fst (sanitize ftfy_repairs (Some entity_lf_text)
            (snd (sanitize ftfy_repairs (Some entity_cr_text) fresh_session)))
       = Inr (Some decoded_lf_text)"
    using sanitize_ok(1)[OF w1, of ftfy_repairs entity_lf_text]
    by (simp add: sanitized_ftfy_repairs)
  have c: "decoded_lf_text \<noteq> entity_lf_text"
    by (simp add: decoded_lf_text_def entity_lf_text_def)
  show ?thesis using a b c by blast
qed

text \<open>
  Claim C2, amended. If \<open>sanitize(x)\<close> returned \<open>y\<close> and \<open>fix_text\<close> leaves \<open>y\<close> as
  it is, then \<open>sanitize(y)\<close> returns \<open>y\<close>, in any state, and logs nothing. Stages 2
  and 3 leave \<open>y\<close> unchanged whatever \<open>fix_text\<close> does, so a second call changes
  the text only where the repair stage does.
\<close>

theorem sanitize_idempotent:
  assumes "fst (sanitize_text ftfy x s) = Inr y" "ftfy y = Inr y"
  shows "sanitize_text ftfy y s' = (Inr y, s')
       \<and> escape_surrogates y = y
       \<and> utf8_decode (utf8_encode y) = Inr y"
proof -
  have y: "y = sanitized ftfy x" using assms(1) by (rule sanitize_text_result)
  have c: "list_all (\<lambda>c. \<not> is_surrogate c) y" "valid_str y"
    using sanitized_clean[of ftfy x] y by simp_all
  have a: "sanitize_text ftfy y s' = (Inr y, s')"
    using c assms(2) by (rule sanitize_text_fixed_point)
  have b: "escape_surrogates y = y" using c(1) by (rule escape_surrogates_id)
  have "utf8_decode (utf8_encode (escape_surrogates y)) = Inr (escape_surrogates y)"
    using c(2) by (rule stage3_after_stage2)
  then have d: "utf8_decode (utf8_encode y) = Inr y" using b by simp
  show ?thesis using a b d by blast
qed

text \<open>
  An instance of the amended claim C2 with the repairs of \<open>fix_text\<close>: in \<open>a\<close>,
  carriage return, \<open>b\<close> the carriage return becomes a line feed, and the result is
  left as it is by a second call.
\<close>

theorem sanitize_idempotent_witness:
  "fst (sanitize_text ftfy_repairs [0x61, 0x0D, 0x62] fresh_session) = Inr [0x61, 0x0A, 0x62]
   \<and> ftfy_repairs [0x61, 0x0A, 0x62] = Inr [0x61, 0x0A, 0x62]
   \<and> sanitize_text ftfy_repairs [0x61, 0x0A, 0x62] fresh_session
       = (Inr [0x61, 0x0A, 0x62], fresh_session)"
proof -
  have w: "log_writable fresh_session" by (simp add: fresh_session_def)
  have a: "fst (sanitize_text ftfy_repairs [0x61, 0x0D, 0x62] fresh_session)
             = Inr [0x61, 0x0A, 0x62]"
    using sanitize_text_ok[OF w, of ftfy_repairs "[0x61, 0x0D, 0x62]"]
    by (simp add: sanitized_ftfy_repairs)
  have b: "ftfy_repairs [0x61, 0x0A, 0x62] = Inr [0x61, 0x0A, 0x62]"
    by (rule ftfy_repairs_examples)
  show ?thesis
    using a b
      sanitize_idempotent[where ftfy = ftfy_repairs and x = "[0x61, 0x0D, 0x62]"
        and s = fresh_session and y = "[0x61, 0x0A, 0x62]" and s' = fresh_session]
    by blast
qed

section \<open>The streaming exchange\<close>

lemma sanitize_text_sent: "sent (snd (sanitize_text ftfy t s)) = sent s"
proof (cases "pipeline ftfy t")
  case (Inl e)
  then show ?thesis
    by (simp add: sanitize_text_def sanitize_handler_def log_error_def Let_def)
next
  case (Inr t3)
  then show ?thesis
    by (simp add: sanitize_text_def sanitize_handler_def log_error_def Let_def)
qed

lemma history_ok:
  assumes "log_writable s"
  shows "fst (sanitize_message_history ftfy ms s) = Inr (resanitized ftfy ms)
       \<and> log_writable (snd (sanitize_message_history ftfy ms s))
       \<and> messages (snd (sanitize_message_history ftfy ms s)) = messages s
       \<and> stdout (snd (sanitize_message_history ftfy ms s)) = stdout s
       \<and> sent (snd (sanitize_message_history ftfy ms s)) = sent s"
  using assms
proof (induction ms arbitrary: s)
  case Nil
  then show ?case by (simp add: resanitized_def)
next
  case (Cons msg ms)
  obtain res s1 where p: "sanitize_text ftfy (content msg) s = (res, s1)"
    by (cases "sanitize_text ftfy (content msg) s")
  have r: "res = Inr (sanitized ftfy (content msg))"
    using sanitize_text_ok[OF Cons.prems, of ftfy "content msg"] p by simp
  have f: "log_writable s1" "messages s1 = messages s" "stdout s1 = stdout s" "sent s1 = sent s"
    using sanitize_text_frame[of ftfy "content msg" s] sanitize_text_sent[of ftfy "content msg" s]
      p Cons.prems by simp_all
  obtain res2 s2 where q: "sanitize_message_history ftfy ms s1 = (res2, s2)"
    by (cases "sanitize_message_history ftfy ms s1")
  have ih: "res2 = Inr (resanitized ftfy ms)" "log_writable s2" "messages s2 = messages s1"
    "stdout s2 = stdout s1" "sent s2 = sent s1"
    using Cons.IH[OF f(1)] q by simp_all
  show ?case using p r q ih f by (simp add: resanitized_def)
qed

lemma print_end_frame:
  "log_writable (print_end x e s) = log_writable s"
  "messages (print_end x e s) = messages s"
  "sent (print_end x e s) = sent s"
  "stdout (print_end x e s) = stdout s @ [x @ e]"
  by (simp_all add: print_end_def)

lemma consume_stream_outcome:
  assumes "log_writable s"
  shows "fst (consume_stream ftfy evs acc s)
           = (case first_failure evs of
                None \<Rightarrow> Inr (acc @ fragments ftfy evs)
              | Some e \<Rightarrow> Inl e)
       \<and> log_writable (snd (consume_stream ftfy evs acc s))
       \<and> messages (snd (consume_stream ftfy evs acc s)) = messages s
       \<and> sent (snd (consume_stream ftfy evs acc s)) = sent s
       \<and> stdout (snd (consume_stream ftfy evs acc s)) = stdout s @ fragments ftfy evs"
  using assms
proof (induction ftfy evs acc s rule: consume_stream.induct)
  case (1 ftfy full_response s)
  then show ?case by simp
next
  case (2 ftfy e rest full_response s)
  then show ?case by simp
next
  case (3 ftfy rest full_response s)
  then show ?case by (simp split: option.splits)
next
  case (4 ftfy c rest full_response s)
  show ?case
  proof (cases "c = []")
    case True
    then show ?thesis using 4 by (simp split: option.splits)
  next
    case False
    obtain res s1 where p: "sanitize_text ftfy c s = (res, s1)"
      by (cases "sanitize_text ftfy c s")
    have r: "res = Inr (sanitized ftfy c)"
      using sanitize_text_ok[OF "4.prems", of ftfy c] p by simp
    have f: "log_writable s1" "messages s1 = messages s" "sent s1 = sent s"
      "stdout s1 = stdout s"
      using sanitize_text_frame[of ftfy c s] sanitize_text_sent[of ftfy c s] p "4.prems"
      by simp_all
    have w: "log_writable (print_end (sanitized ftfy c) [] s1)"
      using f(1) by (simp add: print_end_frame)
    note ih = "4.IH"(2)[OF False p[symmetric] r w]
    show ?thesis using False p r ih f by (simp add: print_end_frame split: option.splits)
  qed
qed

lemma add_message_frame:
  "sent (snd (add_message ftfy r c s)) = sent s"
  "stdout (snd (add_message ftfy r c s)) = stdout s"
proof -
  obtain res s1 where p: "sanitize_text ftfy c s = (res, s1)"
    by (cases "sanitize_text ftfy c s")
  have f: "sent s1 = sent s" "stdout s1 = stdout s"
    using sanitize_text_sent[of ftfy c s] sanitize_text_frame(3)[of ftfy c s] p by simp_all
  show "sent (snd (add_message ftfy r c s)) = sent s"
    using p f by (cases res) (simp_all add: add_message_def Let_def)
  show "stdout (snd (add_message ftfy r c s)) = stdout s"
    using p f by (cases res) (simp_all add: add_message_def Let_def)
qed

text \<open>
  One pass through the \<open>try\<close> block, when the log file can be appended to: the
  request carries the re-sanitized history, and the outcome is the failure of the
  answer, if it has one, or else one stored reply.
\<close>

lemma stream_attempt_outcome:
  assumes "log_writable s" "r = api a (resanitized ftfy (messages s))"
  shows "fst (stream_attempt ftfy api a s)
           = (case response_failure r of None \<Rightarrow> Inr () | Some e \<Rightarrow> Inl e)"
    and "log_writable (snd (stream_attempt ftfy api a s))"
    and "messages (snd (stream_attempt ftfy api a s))
           = (case response_failure r of
                None \<Rightarrow> trimmed (messages s @ [reply ftfy r])
              | Some e \<Rightarrow> messages s)"
    and "sent (snd (stream_attempt ftfy api a s)) = sent s @ [resanitized ftfy (messages s)]"
    and "stdout (snd (stream_attempt ftfy api a s)) = stdout s @ attempt_output ftfy r"
proof -
  obtain res s0 where h: "sanitize_message_history ftfy (messages s) s = (res, s0)"
    by (cases "sanitize_message_history ftfy (messages s) s")
  have h0: "res = Inr (resanitized ftfy (messages s))" "log_writable s0"
    "messages s0 = messages s" "stdout s0 = stdout s" "sent s0 = sent s"
    using history_ok[OF assms(1), of ftfy "messages s"] h by simp_all
  define s1 where "s1 = s0\<lparr>sent := sent s0 @ [resanitized ftfy (messages s)]\<rparr>"
  have f1: "log_writable s1" "messages s1 = messages s" "stdout s1 = stdout s"
    "sent s1 = sent s @ [resanitized ftfy (messages s)]"
    using h0 by (simp_all add: s1_def)
  have "fst (stream_attempt ftfy api a s)
           = (case response_failure r of None \<Rightarrow> Inr () | Some e \<Rightarrow> Inl e)
      \<and> log_writable (snd (stream_attempt ftfy api a s))
      \<and> messages (snd (stream_attempt ftfy api a s))
           = (case response_failure r of
                None \<Rightarrow> trimmed (messages s @ [reply ftfy r])
              | Some e \<Rightarrow> messages s)
      \<and> sent (snd (stream_attempt ftfy api a s)) = sent s @ [resanitized ftfy (messages s)]
      \<and> stdout (snd (stream_attempt ftfy api a s)) = stdout s @ attempt_output ftfy r"
  proof (cases r)
    case (CreateRaises e)
    have "stream_attempt ftfy api a s = (Inl e, s1)"
      using h h0(1) CreateRaises assms(2) by (simp add: stream_attempt_def s1_def)
    then show ?thesis
      using f1 CreateRaises by (simp add: response_failure_def attempt_output_def)
  next
    case (Stream evs)
    define s1p where "s1p = print_end assistant_prefix [] s1"
    have fp: "log_writable s1p" "messages s1p = messages s"
      "stdout s1p = stdout s @ [assistant_prefix]"
      "sent s1p = sent s @ [resanitized ftfy (messages s)]"
      using f1 by (simp_all add: s1p_def print_end_frame)
    obtain res2 s2 where c: "consume_stream ftfy evs [] s1p = (res2, s2)"
      by (cases "consume_stream ftfy evs [] s1p")
    have c0: "res2 = (case first_failure evs of
                None \<Rightarrow> Inr (fragments ftfy evs) | Some e \<Rightarrow> Inl e)"
      "log_writable s2" "messages s2 = messages s"
      "sent s2 = sent s @ [resanitized ftfy (messages s)]"
      "stdout s2 = stdout s @ [assistant_prefix] @ fragments ftfy evs"
      using consume_stream_outcome[OF fp(1), of ftfy evs "[]"] c fp
      by (simp_all split: option.splits)
    have u: "stream_attempt ftfy api a s
               = (case res2 of
                    Inl e \<Rightarrow> (Inl e, s2)
                  | Inr full_response \<Rightarrow>
                      add_message ftfy (ascii ''assistant'') (concat full_response)
                        (print_end [] [0x0A] s2))"
      using h h0(1) Stream assms(2) c by (simp add: stream_attempt_def s1_def s1p_def)
    show ?thesis
    proof (cases "first_failure evs")
      case None
      define s3 where "s3 = print_end [] [0x0A] s2"
      have f3: "log_writable s3" "messages s3 = messages s"
        "sent s3 = sent s @ [resanitized ftfy (messages s)]"
        "stdout s3 = stdout s @ [assistant_prefix] @ fragments ftfy evs @ [[0x0A]]"
        using c0 by (simp_all add: s3_def print_end_frame)
      have v: "stream_attempt ftfy api a s
                 = add_message ftfy (ascii ''assistant'') (concat (fragments ftfy evs)) s3"
        using u c0(1) None by (simp add: s3_def)
      show ?thesis
        using add_message_ok[OF f3(1), of ftfy "ascii ''assistant''" "concat (fragments ftfy evs)"]
          add_message_frame[of ftfy "ascii ''assistant''" "concat (fragments ftfy evs)" s3]
          f3 v None Stream
        by (simp add: response_failure_def attempt_output_def reply_def response_text_def)
    next
      case (Some e)
      have "stream_attempt ftfy api a s = (Inl e, s2)"
        using u c0(1) Some by simp
      then show ?thesis
        using c0 Some Stream by (simp add: response_failure_def attempt_output_def)
    qed
  qed
  then show "fst (stream_attempt ftfy api a s)
           = (case response_failure r of None \<Rightarrow> Inr () | Some e \<Rightarrow> Inl e)"
    and "log_writable (snd (stream_attempt ftfy api a s))"
    and "messages (snd (stream_attempt ftfy api a s))
           = (case response_failure r of
                None \<Rightarrow> trimmed (messages s @ [reply ftfy r])
              | Some e \<Rightarrow> messages s)"
    and "sent (snd (stream_attempt ftfy api a s)) = sent s @ [resanitized ftfy (messages s)]"
    and "stdout (snd (stream_attempt ftfy api a s)) = stdout s @ attempt_output ftfy r"
    by simp_all
qed



lemma loop_other_step:
  assumes "log_writable s" "a < n" "r = api a (resanitized ftfy (messages s))"
    "other_failure r e"
  shows "fst (stream_chat_loop ftfy api n a s) = Inr ()"
    and "messages (snd (stream_chat_loop ftfy api n a s)) = messages s"
    and "sent (snd (stream_chat_loop ftfy api n a s)) = sent s @ [resanitized ftfy (messages s)]"
    and "stdout (snd (stream_chat_loop ftfy api n a s))
           = stdout s @ attempt_output ftfy r @ [sanitized ftfy (request_error e) @ [0x0A]]"
proof -
  obtain res s1 where p: "stream_attempt ftfy api a s = (res, s1)"
    by (cases "stream_attempt ftfy api a s")
  note o = stream_attempt_outcome[where s = s and r = r and api = api and a = a
      and ftfy = ftfy, OF assms(1,3)]
  have f: "response_failure r = Some e" "class_of e \<noteq> UnicodeEncodeError"
    using assms(4) by (simp_all add: other_failure_def)
  have r: "res = Inl e" using o(1) p f(1) by simp
  have f1: "log_writable s1" "messages s1 = messages s"
    "sent s1 = sent s @ [resanitized ftfy (messages s)]"
    "stdout s1 = stdout s @ attempt_output ftfy r"
    using o(2,3,4,5) p f(1) by simp_all
  obtain res2 s2 where q: "sanitize_text ftfy (request_error e) s1 = (res2, s2)"
    by (cases "sanitize_text ftfy (request_error e) s1")
  have r2: "res2 = Inr (sanitized ftfy (request_error e))"
    using sanitize_text_ok[OF f1(1), of ftfy "request_error e"] q by simp
  have f2: "messages s2 = messages s1" "sent s2 = sent s1" "stdout s2 = stdout s1"
    using sanitize_text_frame[of ftfy "request_error e" s1]
      sanitize_text_sent[of ftfy "request_error e" s1] q by simp_all
  have l: "stream_chat_loop ftfy api n a s
             = (Inr (), print_end (sanitized ftfy (request_error e)) [0x0A] s2)"
    using assms(2) p r f(2) q r2 by (simp add: stream_chat_loop.simps[of ftfy api n a s])
  show "fst (stream_chat_loop ftfy api n a s) = Inr ()" using l by simp
  show "messages (snd (stream_chat_loop ftfy api n a s)) = messages s"
    using l f1 f2 by (simp add: print_end_frame)
  show "sent (snd (stream_chat_loop ftfy api n a s)) = sent s @ [resanitized ftfy (messages s)]"
    using l f1 f2 by (simp add: print_end_frame)
  show "stdout (snd (stream_chat_loop ftfy api n a s))
           = stdout s @ attempt_output ftfy r @ [sanitized ftfy (request_error e) @ [0x0A]]"
    using l f1 f2 by (simp add: print_end_frame)
qed

lemma loop_encoding_step:
  assumes "log_writable s" "a < n" "r = api a (resanitized ftfy (messages s))"
    "encoding_failure r"
  shows "\<exists>s'. stream_chat_loop ftfy api n a s = stream_chat_loop ftfy api n (a + 1) s'
            \<and> log_writable s'
            \<and> messages s' = resanitized ftfy (messages s)
            \<and> sent s' = sent s @ [resanitized ftfy (messages s)]
            \<and> stdout s' = stdout s @ attempt_output ftfy r @ [retry_message (a + 1) n @ [0x0A]]"
proof -
  obtain res s1 where p: "stream_attempt ftfy api a s = (res, s1)"
    by (cases "stream_attempt ftfy api a s")
  note o = stream_attempt_outcome[where s = s and r = r and api = api and a = a
      and ftfy = ftfy, OF assms(1,3)]
  obtain e where f: "response_failure r = Some e" "class_of e = UnicodeEncodeError"
    using assms(4) by (auto simp add: encoding_failure_def split: option.splits)
  have r: "res = Inl e" using o(1) p f(1) by simp
  have f1: "log_writable s1" "messages s1 = messages s"
    "sent s1 = sent s @ [resanitized ftfy (messages s)]"
    "stdout s1 = stdout s @ attempt_output ftfy r"
    using o(2,3,4,5) p f(1) by simp_all
  define s2 where "s2 = print_end (retry_message (a + 1) n) [0x0A] s1"
  have f2: "log_writable s2" "messages s2 = messages s"
    "sent s2 = sent s @ [resanitized ftfy (messages s)]"
    "stdout s2 = stdout s @ attempt_output ftfy r @ [retry_message (a + 1) n @ [0x0A]]"
    using f1 by (simp_all add: s2_def print_end_frame)
  obtain res3 s3 where h: "sanitize_message_history ftfy (messages s2) s2 = (res3, s3)"
    by (cases "sanitize_message_history ftfy (messages s2) s2")
  have h3: "res3 = Inr (resanitized ftfy (messages s))" "log_writable s3"
    "sent s3 = sent s2" "stdout s3 = stdout s2"
    using history_ok[OF f2(1), of ftfy "messages s2"] h f2(2) by simp_all
  have l: "stream_chat_loop ftfy api n a s
             = stream_chat_loop ftfy api n (a + 1)
                 (s3\<lparr>messages := resanitized ftfy (messages s)\<rparr>)"
    using assms(2) p r f(2) h h3(1)
    by (simp add: stream_chat_loop.simps[of ftfy api n a s] s2_def)
  show ?thesis
    using l h3 f2 by (intro exI[of _ "s3\<lparr>messages := resanitized ftfy (messages s)\<rparr>"]) simp
qed

lemma upt_0_Suc: "[0..<Suc k] = 0 # map Suc [0..<k]"
  by (simp add: upt_rec[of 0 "Suc k"] map_Suc_upt del: upt_Suc)

text \<open>
  After \<open>k\<close> attempts in a row that end in \<open>UnicodeEncodeError\<close>, the loop is at
  attempt \<open>a + k\<close> with the history re-sanitized \<open>k\<close> times.
\<close>

lemma loop_after_failures:
  assumes "log_writable s" "a + k \<le> n"
    "\<forall>i<k. encoding_failure
              (api (a + i) (resanitized ftfy ((resanitized ftfy ^^ i) (messages s))))"
  shows "\<exists>s'. stream_chat_loop ftfy api n a s = stream_chat_loop ftfy api n (a + k) s'
            \<and> log_writable s'
            \<and> messages s' = (resanitized ftfy ^^ k) (messages s)
            \<and> sent s' = sent s
                 @ map (\<lambda>i. resanitized ftfy ((resanitized ftfy ^^ i) (messages s))) [0..<k]
            \<and> stdout s' = stdout s
                 @ concat (map (\<lambda>i. attempt_output ftfy
                                      (api (a + i)
                                         (resanitized ftfy
                                            ((resanitized ftfy ^^ i) (messages s))))
                                    @ [retry_message (a + i + 1) n @ [0x0A]]) [0..<k])"
  using assms
proof (induction k arbitrary: a s)
  case 0
  then show ?case by (intro exI[of _ s]) simp
next
  case (Suc k)
  have e0: "encoding_failure (api a (resanitized ftfy (messages s)))"
    using Suc.prems(3) by (auto dest: spec[of _ 0])
  have lt: "a < n" using Suc.prems(2) by simp
  obtain s1 where s1: "stream_chat_loop ftfy api n a s = stream_chat_loop ftfy api n (a + 1) s1"
    "log_writable s1" "messages s1 = resanitized ftfy (messages s)"
    "sent s1 = sent s @ [resanitized ftfy (messages s)]"
    "stdout s1 = stdout s @ attempt_output ftfy (api a (resanitized ftfy (messages s)))
                   @ [retry_message (a + 1) n @ [0x0A]]"
    using loop_encoding_step[where s = s and api = api and a = a and ftfy = ftfy and n = n
        and r = "api a (resanitized ftfy (messages s))", OF Suc.prems(1) lt refl e0]
    by blast
  have sw: "(resanitized ftfy ^^ i) (resanitized ftfy (messages s))
              = (resanitized ftfy ^^ Suc i) (messages s)" for i
    by (simp add: funpow_swap1)
  have le: "(a + 1) + k \<le> n" using Suc.prems(2) by simp
  have hyp: "\<forall>i<k. encoding_failure
              (api ((a + 1) + i) (resanitized ftfy ((resanitized ftfy ^^ i) (messages s1))))"
  proof (intro allI impI)
    fix i assume "i < k"
    then have "encoding_failure
              (api (a + Suc i) (resanitized ftfy ((resanitized ftfy ^^ Suc i) (messages s))))"
      using Suc.prems(3) by (auto dest: spec[of _ "Suc i"])
    then show "encoding_failure
              (api ((a + 1) + i) (resanitized ftfy ((resanitized ftfy ^^ i) (messages s1))))"
      unfolding s1(3) sw by simp
  qed
  obtain s2 where s2: "stream_chat_loop ftfy api n (a + 1) s1
                         = stream_chat_loop ftfy api n ((a + 1) + k) s2"
    "log_writable s2" "messages s2 = (resanitized ftfy ^^ k) (messages s1)"
    "sent s2 = sent s1
                 @ map (\<lambda>i. resanitized ftfy ((resanitized ftfy ^^ i) (messages s1))) [0..<k]"
    "stdout s2 = stdout s1
                 @ concat (map (\<lambda>i. attempt_output ftfy
                                      (api ((a + 1) + i)
                                         (resanitized ftfy
                                            ((resanitized ftfy ^^ i) (messages s1))))
                                    @ [retry_message ((a + 1) + i + 1) n @ [0x0A]]) [0..<k])"
    using Suc.IH[OF s1(2) le hyp] by blast
  have a1: "stream_chat_loop ftfy api n a s = stream_chat_loop ftfy api n (a + Suc k) s2"
    using s1(1) s2(1) by simp
  have a3: "messages s2 = (resanitized ftfy ^^ Suc k) (messages s)"
    unfolding s2(3) s1(3) sw ..
  have a4: "sent s2 = sent s
                 @ map (\<lambda>i. resanitized ftfy ((resanitized ftfy ^^ i) (messages s)))
                     [0..<Suc k]"
    unfolding s2(4) s1(3,4) sw upt_0_Suc by (simp add: comp_def)
  have a5: "stdout s2 = stdout s
                 @ concat (map (\<lambda>i. attempt_output ftfy
                                      (api (a + i)
                                         (resanitized ftfy
                                            ((resanitized ftfy ^^ i) (messages s))))
                                    @ [retry_message (a + i + 1) n @ [0x0A]]) [0..<Suc k])"
    unfolding s2(5) s1(3,5) sw upt_0_Suc by (simp add: comp_def)
  show ?case using a1 s2(2) a3 a4 a5 by (intro exI[of _ s2]) blast
qed

text \<open>
  The same for \<open>stream_chat\<close>, which starts the loop at attempt 0, in terms of the
  requests of the call.
\<close>

lemma stream_chat_after_failures:
  assumes "log_writable s" "k \<le> n"
    "\<forall>i<k. encoding_failure (request ftfy api i (messages s))"
  shows "\<exists>s'. stream_chat ftfy api n s = stream_chat_loop ftfy api n k s'
            \<and> log_writable s'
            \<and> messages s' = history_after ftfy k (messages s)
            \<and> sent s' = sent s @ requests_sent ftfy k (messages s)
            \<and> stdout s' = stdout s @ retries_output ftfy api n k (messages s)"
proof -
  have le: "0 + k \<le> n" using assms(2) by simp
  have hyp: "\<forall>i<k. encoding_failure
              (api (0 + i) (resanitized ftfy ((resanitized ftfy ^^ i) (messages s))))"
    using assms(3) by (simp add: request_def history_after_def)
  show ?thesis
    using loop_after_failures[OF assms(1) le hyp]
    by (simp add: stream_chat_def request_def history_after_def requests_sent_def
        retries_output_def)
qed

lemma requests_sent_Suc:
  "requests_sent ftfy (Suc k) ms
     = requests_sent ftfy k ms @ [resanitized ftfy (history_after ftfy k ms)]"
  by (simp add: requests_sent_def)



lemma history_after_fixed:
  assumes "resanitized ftfy ms = ms"
  shows "history_after ftfy k ms = ms"
  using assms by (induction k) (simp_all add: history_after_def)






lemma stream_chat_other_failure:
  assumes "log_writable s" "k < n"
    "\<forall>i<k. encoding_failure (request ftfy api i (messages s))"
    "other_failure (request ftfy api k (messages s)) e"
  shows "fst (stream_chat ftfy api n s) = Inr ()"
    and "messages (snd (stream_chat ftfy api n s)) = history_after ftfy k (messages s)"
    and "sent (snd (stream_chat ftfy api n s))
           = sent s @ requests_sent ftfy (k + 1) (messages s)"
    and "stdout (snd (stream_chat ftfy api n s))
           = stdout s @ retries_output ftfy api n k (messages s)
               @ attempt_output ftfy (request ftfy api k (messages s))
               @ [sanitized ftfy (request_error e) @ [0x0A]]"
proof -
  have le: "k \<le> n" using assms(2) by simp
  obtain s' where s': "stream_chat ftfy api n s = stream_chat_loop ftfy api n k s'"
    "log_writable s'" "messages s' = history_after ftfy k (messages s)"
    "sent s' = sent s @ requests_sent ftfy k (messages s)"
    "stdout s' = stdout s @ retries_output ftfy api n k (messages s)"
    using stream_chat_after_failures[OF assms(1) le assms(3)] by blast
  have r: "request ftfy api k (messages s) = api k (resanitized ftfy (messages s'))"
    by (simp add: request_def s'(3))
  note o = loop_other_step[where s = s' and a = k and n = n and api = api and ftfy = ftfy
      and r = "request ftfy api k (messages s)" and e = e, OF s'(2) assms(2) r assms(4)]
  show "fst (stream_chat ftfy api n s) = Inr ()" using o(1) s'(1) by simp
  show "messages (snd (stream_chat ftfy api n s)) = history_after ftfy k (messages s)"
    using o(2) s'(1,3) by simp
  show "sent (snd (stream_chat ftfy api n s))
           = sent s @ requests_sent ftfy (k + 1) (messages s)"
    using o(3) s'(1,3,4) by (simp add: requests_sent_Suc)
  show "stdout (snd (stream_chat ftfy api n s))
           = stdout s @ retries_output ftfy api n k (messages s)
               @ attempt_output ftfy (request ftfy api k (messages s))
               @ [sanitized ftfy (request_error e) @ [0x0A]]"
    using o(4) s'(1,5) by simp
qed

text \<open>Facts about the sessions and the services of the examples.\<close>

lemma sanitized_plain_examples:
  "sanitized ftfy_repairs system_prompt = system_prompt"
  "sanitized ftfy_repairs (ascii ''He'') = ascii ''He''"
  "sanitized ftfy_repairs (ascii ''Hel'') = ascii ''Hel''"
  "sanitized ftfy_repairs (ascii ''lo'') = ascii ''lo''"
  "ftfy_repairs (ascii ''Hello'') = Inr (ascii ''Hello'')"
proof -
  have p: "ftfy_repairs system_prompt = Inr system_prompt"
    by (simp add: ftfy_repairs_def system_prompt_def is_surrogate_def)
  show "sanitized ftfy_repairs system_prompt = system_prompt"
    using p system_prompt_plain by (rule sanitized_repaired) (simp add: system_prompt_def)
  show "sanitized ftfy_repairs (ascii ''He'') = ascii ''He''"
    by (rule sanitized_repaired[where ?t1.0 = "ascii ''He''"])
      (simp_all add: ftfy_repairs_def ascii_def is_surrogate_def valid_str_def)
  show "sanitized ftfy_repairs (ascii ''Hel'') = ascii ''Hel''"
    by (rule sanitized_repaired[where ?t1.0 = "ascii ''Hel''"])
      (simp_all add: ftfy_repairs_def ascii_def is_surrogate_def valid_str_def)
  show "sanitized ftfy_repairs (ascii ''lo'') = ascii ''lo''"
    by (rule sanitized_repaired[where ?t1.0 = "ascii ''lo''"])
      (simp_all add: ftfy_repairs_def ascii_def is_surrogate_def valid_str_def)
  show "ftfy_repairs (ascii ''Hello'') = Inr (ascii ''Hello'')"
    by (simp add: ftfy_repairs_def ascii_def is_surrogate_def)
qed

lemma started_session_stable:
  "resanitized ftfy_repairs (messages started_session) = messages started_session"
  "history_after ftfy_repairs k (messages started_session) = messages started_session"
  "length (messages started_session) = 1" "sent started_session = []"
  "stdout started_session = []"
proof -
  show r: "resanitized ftfy_repairs (messages started_session) = messages started_session"
    by (simp add: resanitized_def started_session_facts sanitized_plain_examples)
  show "history_after ftfy_repairs k (messages started_session) = messages started_session"
    using r by (rule history_after_fixed)
  show "length (messages started_session) = 1" "sent started_session = []"
    "stdout started_session = []"
    by (simp_all add: started_session_def fresh_session_def)
qed


lemma length_requests_sent: "length (requests_sent ftfy k ms) = k"
  by (simp add: requests_sent_def)




lemma encoding_then_timeout_api_facts:
  "\<forall>i<1. encoding_failure (request ftfy encoding_then_timeout_api i ms)"
  "other_failure (request ftfy encoding_then_timeout_api 1 ms) timeout_error"
  "attempt_output ftfy (request ftfy encoding_then_timeout_api i ms) = []"
  by (simp_all add: request_def encoding_then_timeout_api_def encoding_failure_def
      other_failure_def response_failure_def codec_error_def timeout_error_def
      attempt_output_def)


lemma entity_session_facts:
  "log_writable entity_session"
  "messages entity_session
     = [\<lparr>role = ascii ''system'', content = system_prompt\<rparr>,
        \<lparr>role = ascii ''user'', content = entity_lf_text\<rparr>]"
  using add_message_ok[OF started_session_facts(1), of ftfy_repairs "ascii ''user''"
      entity_cr_text]
  by (simp_all add: entity_session_def started_session_facts trimmed_def sanitized_ftfy_repairs)




text \<open>
  Claim C6 as the specification words it does not hold for every failure: the history
  after the call need not be the history before it. The user message \<open>&amp;\<close>,
  carriage return, \<open><\<close> has been added, and is stored with a line feed for the
  carriage return. The request fails with \<open>UnicodeEncodeError\<close> at attempt 0, so the
  history is re-sanitized, which decodes the entity in the stored message; at attempt
  1 it fails with a time-out, and \<open>stream_chat\<close> returns with the changed history.
\<close>

theorem history_changed_counterexample:
  "encoding_failure
     (request ftfy_repairs encoding_then_timeout_api 0 (messages entity_session))
   \<and> other_failure
         (request ftfy_repairs encoding_then_timeout_api 1 (messages entity_session))
         timeout_error
   \<and> fst (stream_chat ftfy_repairs encoding_then_timeout_api 3 entity_session) = Inr ()
   \<and> content (messages entity_session ! 1) = entity_lf_text
   \<and> content (messages (snd (stream_chat ftfy_repairs encoding_then_timeout_api 3
                                 entity_session)) ! 1) = decoded_lf_text
   \<and> decoded_lf_text \<noteq> entity_lf_text"
proof -
  have w: "log_writable entity_session" by (rule entity_session_facts)
  have k: "(1::nat) < 3" by simp
  note h = encoding_then_timeout_api_facts(1)[of ftfy_repairs "messages entity_session"]
  note f = encoding_then_timeout_api_facts(2)[of ftfy_repairs "messages entity_session"]
  have e0: "encoding_failure
     (request ftfy_repairs encoding_then_timeout_api 0 (messages entity_session))"
    using h by simp
  note o = stream_chat_other_failure[where s = entity_session and k = 1 and n = 3
      and ftfy = ftfy_repairs and api = encoding_then_timeout_api and e = timeout_error,
      OF w k h f]
  have a: "fst (stream_chat ftfy_repairs encoding_then_timeout_api 3 entity_session) = Inr ()"
    by (rule o(1))
  have b: "content (messages entity_session ! 1) = entity_lf_text"
    by (simp add: entity_session_facts)
  have c: "content (messages (snd (stream_chat ftfy_repairs encoding_then_timeout_api 3
                                 entity_session)) ! 1) = decoded_lf_text"
    using o(2)
    by (simp add: history_after_def resanitized_def entity_session_facts
        sanitized_ftfy_repairs)
  have d: "decoded_lf_text \<noteq> entity_lf_text"
    by (simp add: decoded_lf_text_def entity_lf_text_def)
  show ?thesis using e0 f a b c d by blast
qed

text \<open>
  Claim C6, amended. Let the log file be appendable, let the first \<open>k\<close> attempts of a
  call of \<open>stream_chat\<close> end in \<open>UnicodeEncodeError\<close>, with \<open>k\<close> below
  \<open>max_retries\<close>, and let attempt \<open>k\<close> end in an exception \<open>e\<close> of any other class.
  Then the call returns without another request: \<open>k + 1\<close> requests have been made.
  The last line printed is the sanitized text of the error message for \<open>e\<close>, after
  what the attempts had printed, and it is printed once. The history is the one that
  the \<open>k\<close> retries left: it is exactly the history before the call when the failure
  comes at the first attempt, or when re-sanitizing leaves the history unchanged.
\<close>

theorem other_failure_ends_exchange:
  assumes "log_writable s" "k < n"
    "\<forall>i<k. encoding_failure (request ftfy api i (messages s))"
    "other_failure (request ftfy api k (messages s)) e"
  shows "fst (stream_chat ftfy api n s) = Inr ()
       \<and> messages (snd (stream_chat ftfy api n s)) = history_after ftfy k (messages s)
       \<and> (k = 0 \<or> resanitized ftfy (messages s) = messages s
            \<longrightarrow> messages (snd (stream_chat ftfy api n s)) = messages s)
       \<and> sent (snd (stream_chat ftfy api n s))
           = sent s @ requests_sent ftfy (k + 1) (messages s)
       \<and> stdout (snd (stream_chat ftfy api n s))
           = stdout s @ retries_output ftfy api n k (messages s)
               @ attempt_output ftfy (request ftfy api k (messages s))
               @ [sanitized ftfy (request_error e) @ [0x0A]]"
proof -
  note o = stream_chat_other_failure[OF assms]
  have u: "messages (snd (stream_chat ftfy api n s)) = messages s"
    if "k = 0 \<or> resanitized ftfy (messages s) = messages s"
    using that
  proof
    assume "k = 0"
    then show ?thesis using o(2) by (simp add: history_after_def)
  next
    assume "resanitized ftfy (messages s) = messages s"
    then show ?thesis using o(2) by (simp add: history_after_fixed)
  qed
  show ?thesis using o u by blast
qed

text \<open>
  An instance of the amended claim C6 with \<open>max_retries = 3\<close>: the request fails with
  \<open>UnicodeEncodeError\<close> at attempt 0 and with a time-out at attempt 1. Two requests
  are made, two lines are printed, the retry notice and the error message, and the
  history, which re-sanitizing leaves unchanged, is as it was.
\<close>

theorem other_failure_ends_exchange_witness:
  "log_writable started_session
   \<and> encoding_failure
       (request ftfy_repairs encoding_then_timeout_api 0 (messages started_session))
   \<and> other_failure
       (request ftfy_repairs encoding_then_timeout_api 1 (messages started_session))
       timeout_error
   \<and> resanitized ftfy_repairs (messages started_session) = messages started_session
   \<and> fst (stream_chat ftfy_repairs encoding_then_timeout_api 3 started_session) = Inr ()
   \<and> messages (snd (stream_chat ftfy_repairs encoding_then_timeout_api 3 started_session))
       = messages started_session
   \<and> length (sent (snd (stream_chat ftfy_repairs encoding_then_timeout_api 3
                          started_session))) = 2
   \<and> stdout (snd (stream_chat ftfy_repairs encoding_then_timeout_api 3 started_session))
       = [retry_message 1 3 @ [0x0A],
          sanitized ftfy_repairs (request_error timeout_error) @ [0x0A]]"
proof -
  have w: "log_writable started_session" by (rule started_session_facts)
  have k: "(1::nat) < 3" by simp
  note h = encoding_then_timeout_api_facts(1)[of ftfy_repairs "messages started_session"]
  note f = encoding_then_timeout_api_facts(2)[of ftfy_repairs "messages started_session"]
  note x = started_session_stable(1)
  have e0: "encoding_failure
     (request ftfy_repairs encoding_then_timeout_api 0 (messages started_session))"
    using h by simp
  note t = other_failure_ends_exchange[where s = started_session and k = 1 and n = 3
      and ftfy = ftfy_repairs and api = encoding_then_timeout_api and e = timeout_error,
      OF w k h f]
  have a: "fst (stream_chat ftfy_repairs encoding_then_timeout_api 3 started_session) = Inr ()"
    using t by simp
  have b: "messages (snd (stream_chat ftfy_repairs encoding_then_timeout_api 3
                            started_session)) = messages started_session"
    using t x by blast
  have "sent (snd (stream_chat ftfy_repairs encoding_then_timeout_api 3 started_session))
          = sent started_session @ requests_sent ftfy_repairs (1 + 1) (messages started_session)"
    using t by simp
  then have c: "length (sent (snd (stream_chat ftfy_repairs encoding_then_timeout_api 3
                          started_session))) = 2"
    by (simp add: started_session_stable length_requests_sent)
  have "stdout (snd (stream_chat ftfy_repairs encoding_then_timeout_api 3 started_session))
          = stdout started_session
              @ retries_output ftfy_repairs encoding_then_timeout_api 3 1
                  (messages started_session)
              @ attempt_output ftfy_repairs
                  (request ftfy_repairs encoding_then_timeout_api 1 (messages started_session))
              @ [sanitized ftfy_repairs (request_error timeout_error) @ [0x0A]]"
    using t by simp
  then have d: "stdout (snd (stream_chat ftfy_repairs encoding_then_timeout_api 3
                               started_session))
       = [retry_message 1 3 @ [0x0A],
          sanitized ftfy_repairs (request_error timeout_error) @ [0x0A]]"
    by (simp add: started_session_stable retries_output_def encoding_then_timeout_api_facts)
  show ?thesis using w e0 f x a b c d by blast
qed

end
